theory Spec2Isabelle
  imports Main "HOL-Library.Word" "HOL-Library.Signed_Division"
begin

unbundle bit_operations_syntax

section \<open>The Luckfox Lyra I2C keyboard and mouse driver\<close>

text \<open>
  A shallow embedding of \<^verbatim>\<open>drivers/input/keyboard/lyra_i2c_keyboard.c\<close>.
  Every driver function becomes a HOL function on the driver's data; the
  peripheral behind the I2C bus, the two input devices and the delayed work
  are the driver's environment and appear through what the driver does to
  them: the registers it reads, the input events it reports, and the delays it
  schedules. Log output (\<^verbatim>\<open>dev_info\<close>, \<^verbatim>\<open>dev_warn\<close>, \<^verbatim>\<open>dev_err\<close>)
  has no effect on the driver's data and is left out.
\<close>

subsection \<open>Machine integers\<close>

text \<open>
  \<^verbatim>\<open>s8\<close> and \<^verbatim>\<open>s32\<close> are words read through \<^const>\<open>sint\<close>; the casts
  \<^verbatim>\<open>(u8)ret\<close> and \<^verbatim>\<open>(s8)ret\<close> truncate (\<^const>\<open>ucast\<close>), the cast
  \<^verbatim>\<open>(s32)delta\<close> sign-extends (\<^const>\<open>scast\<close>).
\<close>

type_synonym u8 = "8 word"
type_synonym s8 = "8 word"
type_synonym u16 = "16 word"
type_synonym s32 = "32 word"
type_synonym u32 = "32 word"

text \<open>C's \<^verbatim>\<open>/\<close> on \<^verbatim>\<open>int\<close>: the quotient truncated toward zero.\<close>

definition s32_div :: "s32 \<Rightarrow> s32 \<Rightarrow> s32" where
  "s32_div a b = word_of_int (sint a sdiv sint b)"

subsection \<open>Register map and constants (lines 22 to 54)\<close>

definition REG_KEY_STATUS :: u8 where [simp]: "REG_KEY_STATUS = 0x00"
definition REG_FIFO_ACCESS :: u8 where [simp]: "REG_FIFO_ACCESS = 0x01"
definition REG_MOUSE_X :: u8 where [simp]: "REG_MOUSE_X = 0x02"
definition REG_MOUSE_Y :: u8 where [simp]: "REG_MOUSE_Y = 0x03"
definition REG_INT_STATUS :: u8 where [simp]: "REG_INT_STATUS = 0x04"

definition KEY_STATUS_SHIFT_BIT :: u8 where [simp]: "KEY_STATUS_SHIFT_BIT = 0x01"
definition KEY_STATUS_ALT_BIT :: u8 where [simp]: "KEY_STATUS_ALT_BIT = 0x02"
definition KEY_STATUS_FN_BIT :: u8 where [simp]: "KEY_STATUS_FN_BIT = 0x04"

definition FIFO_EVENT_TYPE_MASK :: u8 where [simp]: "FIFO_EVENT_TYPE_MASK = 0x03"
definition FIFO_EVENT_NONE :: u8 where [simp]: "FIFO_EVENT_NONE = 0x00"
definition FIFO_EVENT_PRESS :: u8 where [simp]: "FIFO_EVENT_PRESS = 0x01"
definition FIFO_EVENT_HOLD :: u8 where [simp]: "FIFO_EVENT_HOLD = 0x02"
definition FIFO_EVENT_RELEASE :: u8 where [simp]: "FIFO_EVENT_RELEASE = 0x03"
definition FIFO_KEYCODE_MASK :: u8 where [simp]: "FIFO_KEYCODE_MASK = 0xFC"
definition FIFO_KEYCODE_SHIFT :: nat where [simp]: "FIFO_KEYCODE_SHIFT = 2"

definition INT_STATUS_FIFO_OVERFLOW :: u8 where [simp]: "INT_STATUS_FIFO_OVERFLOW = 0x01"
definition INT_STATUS_SHIFT_CHANGE :: u8 where [simp]: "INT_STATUS_SHIFT_CHANGE = 0x02"
definition INT_STATUS_FN_CHANGE :: u8 where [simp]: "INT_STATUS_FN_CHANGE = 0x04"
definition INT_STATUS_ALT_CHANGE :: u8 where [simp]: "INT_STATUS_ALT_CHANGE = 0x08"
definition INT_STATUS_KEY_EVENT :: u8 where [simp]: "INT_STATUS_KEY_EVENT = 0x10"
definition INT_STATUS_MOUSE_EVENT :: u8 where [simp]: "INT_STATUS_MOUSE_EVENT = 0x20"
definition INT_STATUS_POWER_BTN :: u8 where [simp]: "INT_STATUS_POWER_BTN = 0x40"

definition MAX_KEYCODES :: nat where [simp]: "MAX_KEYCODES = 53"
definition POLL_INTERVAL_MS :: u32 where [simp]: "POLL_INTERVAL_MS = 10"
definition FIFO_MAX_READ :: nat where [simp]: "FIFO_MAX_READ = 16"

subsection \<open>Linux input event codes\<close>

text \<open>
  The key, button and axis codes the driver names come from the kernel's
  \<^verbatim>\<open>include/uapi/linux/input-event-codes.h\<close>, which the driver includes
  through \<^verbatim>\<open>linux/input.h\<close>; the header is not part of the driver file.
  The values below are those of that header (they are part of the kernel's
  stable user-space interface).
\<close>

named_theorems input_event_codes

definition KEY_ESC :: u16 where [input_event_codes]: "KEY_ESC = 1"
definition KEY_1 :: u16 where [input_event_codes]: "KEY_1 = 2"
definition KEY_2 :: u16 where [input_event_codes]: "KEY_2 = 3"
definition KEY_3 :: u16 where [input_event_codes]: "KEY_3 = 4"
definition KEY_4 :: u16 where [input_event_codes]: "KEY_4 = 5"
definition KEY_5 :: u16 where [input_event_codes]: "KEY_5 = 6"
definition KEY_6 :: u16 where [input_event_codes]: "KEY_6 = 7"
definition KEY_7 :: u16 where [input_event_codes]: "KEY_7 = 8"
definition KEY_8 :: u16 where [input_event_codes]: "KEY_8 = 9"
definition KEY_9 :: u16 where [input_event_codes]: "KEY_9 = 10"
definition KEY_0 :: u16 where [input_event_codes]: "KEY_0 = 11"
definition KEY_MINUS :: u16 where [input_event_codes]: "KEY_MINUS = 12"
definition KEY_EQUAL :: u16 where [input_event_codes]: "KEY_EQUAL = 13"
definition KEY_BACKSPACE :: u16 where [input_event_codes]: "KEY_BACKSPACE = 14"
definition KEY_TAB :: u16 where [input_event_codes]: "KEY_TAB = 15"
definition KEY_Q :: u16 where [input_event_codes]: "KEY_Q = 16"
definition KEY_W :: u16 where [input_event_codes]: "KEY_W = 17"
definition KEY_E :: u16 where [input_event_codes]: "KEY_E = 18"
definition KEY_R :: u16 where [input_event_codes]: "KEY_R = 19"
definition KEY_T :: u16 where [input_event_codes]: "KEY_T = 20"
definition KEY_Y :: u16 where [input_event_codes]: "KEY_Y = 21"
definition KEY_U :: u16 where [input_event_codes]: "KEY_U = 22"
definition KEY_I :: u16 where [input_event_codes]: "KEY_I = 23"
definition KEY_O :: u16 where [input_event_codes]: "KEY_O = 24"
definition KEY_P :: u16 where [input_event_codes]: "KEY_P = 25"
definition KEY_LEFTBRACE :: u16 where [input_event_codes]: "KEY_LEFTBRACE = 26"
definition KEY_RIGHTBRACE :: u16 where [input_event_codes]: "KEY_RIGHTBRACE = 27"
definition KEY_ENTER :: u16 where [input_event_codes]: "KEY_ENTER = 28"
definition KEY_LEFTCTRL :: u16 where [input_event_codes]: "KEY_LEFTCTRL = 29"
definition KEY_A :: u16 where [input_event_codes]: "KEY_A = 30"
definition KEY_S :: u16 where [input_event_codes]: "KEY_S = 31"
definition KEY_D :: u16 where [input_event_codes]: "KEY_D = 32"
definition KEY_F :: u16 where [input_event_codes]: "KEY_F = 33"
definition KEY_G :: u16 where [input_event_codes]: "KEY_G = 34"
definition KEY_H :: u16 where [input_event_codes]: "KEY_H = 35"
definition KEY_J :: u16 where [input_event_codes]: "KEY_J = 36"
definition KEY_K :: u16 where [input_event_codes]: "KEY_K = 37"
definition KEY_L :: u16 where [input_event_codes]: "KEY_L = 38"
definition KEY_SEMICOLON :: u16 where [input_event_codes]: "KEY_SEMICOLON = 39"
definition KEY_APOSTROPHE :: u16 where [input_event_codes]: "KEY_APOSTROPHE = 40"
definition KEY_GRAVE :: u16 where [input_event_codes]: "KEY_GRAVE = 41"
definition KEY_LEFTSHIFT :: u16 where [input_event_codes]: "KEY_LEFTSHIFT = 42"
definition KEY_BACKSLASH :: u16 where [input_event_codes]: "KEY_BACKSLASH = 43"
definition KEY_Z :: u16 where [input_event_codes]: "KEY_Z = 44"
definition KEY_X :: u16 where [input_event_codes]: "KEY_X = 45"
definition KEY_C :: u16 where [input_event_codes]: "KEY_C = 46"
definition KEY_V :: u16 where [input_event_codes]: "KEY_V = 47"
definition KEY_B :: u16 where [input_event_codes]: "KEY_B = 48"
definition KEY_N :: u16 where [input_event_codes]: "KEY_N = 49"
definition KEY_M :: u16 where [input_event_codes]: "KEY_M = 50"
definition KEY_COMMA :: u16 where [input_event_codes]: "KEY_COMMA = 51"
definition KEY_DOT :: u16 where [input_event_codes]: "KEY_DOT = 52"
definition KEY_SLASH :: u16 where [input_event_codes]: "KEY_SLASH = 53"
definition KEY_RIGHTSHIFT :: u16 where [input_event_codes]: "KEY_RIGHTSHIFT = 54"
definition KEY_LEFTALT :: u16 where [input_event_codes]: "KEY_LEFTALT = 56"
definition KEY_SPACE :: u16 where [input_event_codes]: "KEY_SPACE = 57"
definition KEY_F1 :: u16 where [input_event_codes]: "KEY_F1 = 59"
definition KEY_F2 :: u16 where [input_event_codes]: "KEY_F2 = 60"
definition KEY_F3 :: u16 where [input_event_codes]: "KEY_F3 = 61"
definition KEY_F4 :: u16 where [input_event_codes]: "KEY_F4 = 62"
definition KEY_F5 :: u16 where [input_event_codes]: "KEY_F5 = 63"
definition KEY_F6 :: u16 where [input_event_codes]: "KEY_F6 = 64"
definition KEY_F7 :: u16 where [input_event_codes]: "KEY_F7 = 65"
definition KEY_F8 :: u16 where [input_event_codes]: "KEY_F8 = 66"
definition KEY_F9 :: u16 where [input_event_codes]: "KEY_F9 = 67"
definition KEY_F10 :: u16 where [input_event_codes]: "KEY_F10 = 68"
definition KEY_102ND :: u16 where [input_event_codes]: "KEY_102ND = 86"
definition KEY_F11 :: u16 where [input_event_codes]: "KEY_F11 = 87"
definition KEY_F12 :: u16 where [input_event_codes]: "KEY_F12 = 88"
definition KEY_HOME :: u16 where [input_event_codes]: "KEY_HOME = 102"
definition KEY_UP :: u16 where [input_event_codes]: "KEY_UP = 103"
definition KEY_LEFT :: u16 where [input_event_codes]: "KEY_LEFT = 105"
definition KEY_RIGHT :: u16 where [input_event_codes]: "KEY_RIGHT = 106"
definition KEY_END :: u16 where [input_event_codes]: "KEY_END = 107"
definition KEY_DOWN :: u16 where [input_event_codes]: "KEY_DOWN = 108"
definition KEY_POWER :: u16 where [input_event_codes]: "KEY_POWER = 116"
definition BTN_LEFT :: u16 where [input_event_codes]: "BTN_LEFT = 0x110"
definition BTN_RIGHT :: u16 where [input_event_codes]: "BTN_RIGHT = 0x111"
definition BTN_MIDDLE :: u16 where [input_event_codes]: "BTN_MIDDLE = 0x112"
definition KEY_FN :: u16 where [input_event_codes]: "KEY_FN = 0x1d0"
definition MSC_SCAN :: u16 where [input_event_codes]: "MSC_SCAN = 0x04"
definition REL_X :: u16 where [input_event_codes]: "REL_X = 0x00"
definition REL_Y :: u16 where [input_event_codes]: "REL_Y = 0x01"

subsection \<open>The keymap layers (lines 76 to 248)\<close>

text \<open>Index = keycode (0 to 52), value = Linux key code.\<close>

definition keymap_normal :: "u16 list" where
  "keymap_normal =
    [KEY_4, KEY_5, KEY_7, KEY_6, KEY_8, KEY_9, KEY_0,
     KEY_R, KEY_T, KEY_U, KEY_Y, KEY_I, KEY_O, KEY_P,
     KEY_F, KEY_G, KEY_COMMA, KEY_H, KEY_DOT, KEY_L, KEY_ENTER,
     KEY_3, KEY_E, KEY_C, KEY_D, KEY_LEFTSHIFT, KEY_M, KEY_SPACE,
     KEY_2, KEY_ESC, KEY_LEFTALT, KEY_TAB, KEY_V, KEY_LEFTCTRL, KEY_BACKSPACE,
     KEY_1, KEY_Q, KEY_FN, KEY_Z, KEY_B, KEY_N, KEY_RIGHTSHIFT,
     KEY_W, KEY_A, KEY_S, KEY_X, KEY_J, KEY_K,
     BTN_LEFT, KEY_DOWN, KEY_UP, KEY_RIGHT, KEY_LEFT]"

definition keymap_shift :: "u16 list" where
  "keymap_shift =
    [KEY_4, KEY_5, KEY_7, KEY_6, KEY_8, KEY_9, KEY_0,
     KEY_R, KEY_T, KEY_U, KEY_Y, KEY_I, KEY_O, KEY_P,
     KEY_F, KEY_G, KEY_COMMA, KEY_H, KEY_DOT, KEY_L, KEY_ENTER,
     KEY_3, KEY_E, KEY_C, KEY_D, KEY_LEFTSHIFT, KEY_M, KEY_SPACE,
     KEY_2, KEY_ESC, KEY_LEFTALT, KEY_TAB, KEY_V, KEY_LEFTCTRL, KEY_BACKSPACE,
     KEY_1, KEY_Q, KEY_FN, KEY_Z, KEY_B, KEY_N, KEY_RIGHTSHIFT,
     KEY_W, KEY_A, KEY_S, KEY_X, KEY_J, KEY_K,
     BTN_RIGHT, KEY_DOWN, KEY_UP, KEY_RIGHT, KEY_LEFT]"

definition keymap_fn :: "u16 list" where
  "keymap_fn =
    [KEY_F4, KEY_F5, KEY_F7, KEY_F6, KEY_F8, KEY_F9, KEY_F10,
     KEY_MINUS, KEY_MINUS, KEY_EQUAL, KEY_EQUAL, KEY_BACKSLASH, KEY_F11, KEY_F12,
     KEY_APOSTROPHE, KEY_LEFTBRACE, KEY_SLASH, KEY_RIGHTBRACE, KEY_END, KEY_HOME, KEY_ENTER,
     KEY_F3, KEY_GRAVE, KEY_SEMICOLON, KEY_SEMICOLON, KEY_LEFTSHIFT, KEY_SLASH, KEY_SPACE,
     KEY_F2, KEY_ESC, KEY_LEFTALT, KEY_TAB, KEY_APOSTROPHE, KEY_LEFTCTRL, KEY_BACKSPACE,
     KEY_F1, KEY_GRAVE, KEY_FN, KEY_102ND, KEY_LEFTBRACE, KEY_RIGHTBRACE, KEY_RIGHTSHIFT,
     KEY_UP, KEY_LEFT, KEY_RIGHT, KEY_DOWN, KEY_A, KEY_B,
     BTN_MIDDLE, KEY_DOWN, KEY_UP, KEY_RIGHT, KEY_LEFT]"

subsection \<open>The driver's data and its environment\<close>

text \<open>
  What the driver hands to an input device: \<^verbatim>\<open>input_report_key\<close>,
  \<^verbatim>\<open>input_report_rel\<close>, \<^verbatim>\<open>input_event(dev, EV_MSC, code, value)\<close> and
  \<^verbatim>\<open>input_sync\<close>. An input device is the list of the events reported to
  it, oldest first.
\<close>

datatype input_ev =
    Report_key u16 bool
  | Report_rel u16 s32
  | Event_msc u16 s32
  | Sync

definition input_report_key :: "input_ev list \<Rightarrow> u16 \<Rightarrow> bool \<Rightarrow> input_ev list" where
  "input_report_key dev code v = dev @ [Report_key code v]"

definition input_report_rel :: "input_ev list \<Rightarrow> u16 \<Rightarrow> s32 \<Rightarrow> input_ev list" where
  "input_report_rel dev code v = dev @ [Report_rel code v]"

definition input_event_msc :: "input_ev list \<Rightarrow> u16 \<Rightarrow> s32 \<Rightarrow> input_ev list" where
  "input_event_msc dev code v = dev @ [Event_msc code v]"

definition input_sync :: "input_ev list \<Rightarrow> input_ev list" where
  "input_sync dev = dev @ [Sync]"

text \<open>
  \<^verbatim>\<open>struct lyra_kbd_data\<close> (lines 56 to 74). The four pointers to the
  environment are modelled by what the driver did to their targets:
  \<open>client\<close> is the list of register addresses read over the bus so far,
  \<open>kbd_input\<close> and \<open>mouse_input\<close> are the events reported to the two input
  devices, \<open>poll_work\<close> is the list of delays (in milliseconds) with which the
  poll work was scheduled.
\<close>

record lyra_kbd_data =
  client :: "u8 list"
  kbd_input :: "input_ev list"
  mouse_input :: "input_ev list"
  poll_work :: "u32 list"
  last_key_pressed :: "u16 list"
  mouse_speed_x :: s32
  mouse_speed_y :: s32
  power_btn_pressed :: bool
  poll_interval_ms :: u32

text \<open>
  The peripheral: \<open>bus n reg\<close> is what \<^verbatim>\<open>i2c_smbus_read_byte_data\<close> returns
  when the driver's transaction number \<open>n\<close> (counted from 0) reads register
  \<open>reg\<close>: the byte read, or a negative error number.
\<close>

type_synonym i2c_bus = "nat \<Rightarrow> u8 \<Rightarrow> s32"

definition lyra_kbd_read_reg :: "i2c_bus \<Rightarrow> lyra_kbd_data \<Rightarrow> u8 \<Rightarrow> s32 \<times> lyra_kbd_data" where
  "lyra_kbd_read_reg bus kbd reg =
     (bus (length (client kbd)) reg, kbd\<lparr>client := client kbd @ [reg]\<rparr>)"

text \<open>
  \<^verbatim>\<open>schedule_delayed_work(&kbd->poll_work, msecs_to_jiffies(ms))\<close>; the
  delay is recorded in milliseconds.
\<close>

definition schedule_delayed_work :: "lyra_kbd_data \<Rightarrow> u32 \<Rightarrow> lyra_kbd_data" where
  "schedule_delayed_work kbd ms = kbd\<lparr>poll_work := poll_work kbd @ [ms]\<rparr>"

subsection \<open>Key events (lines 261 to 350)\<close>

definition lyra_kbd_process_key_event ::
  "i2c_bus \<Rightarrow> lyra_kbd_data \<Rightarrow> u8 \<Rightarrow> bool \<Rightarrow> lyra_kbd_data" where
  "lyra_kbd_process_key_event bus kbd0 keycode pressed =
    (if unat keycode \<ge> MAX_KEYCODES then kbd0
     else
       let (ret, kbd) = lyra_kbd_read_reg bus kbd0 REG_KEY_STATUS in
       if sint ret < 0 then kbd
       else
         let key_status = (ucast ret :: u8);
             shift = (key_status AND KEY_STATUS_SHIFT_BIT \<noteq> 0);
             alt = (key_status AND KEY_STATUS_ALT_BIT \<noteq> 0);
             fn = (key_status AND KEY_STATUS_FN_BIT \<noteq> 0)
         in
           if keycode = 25 \<or> keycode = 41 then kbd
           else if keycode = 30 then kbd
           else if keycode = 33 then
             kbd\<lparr>kbd_input := input_sync (input_report_key (kbd_input kbd) KEY_LEFTCTRL pressed)\<rparr>
           else if keycode = 37 then kbd
           else if pressed then
             let key = (if fn then keymap_fn ! unat keycode
                        else if shift then keymap_shift ! unat keycode
                        else keymap_normal ! unat keycode);
                 kbd = kbd\<lparr>last_key_pressed := (last_key_pressed kbd)[unat keycode := key]\<rparr>;
                 kbd = kbd\<lparr>kbd_input := input_event_msc (kbd_input kbd) MSC_SCAN (ucast keycode)\<rparr>;
                 kbd = kbd\<lparr>kbd_input := input_report_key (kbd_input kbd) key True\<rparr>
             in kbd\<lparr>kbd_input := input_sync (kbd_input kbd)\<rparr>
           else
             let key = last_key_pressed kbd ! unat keycode;
                 key = (if key = 0 then
                          (if fn then keymap_fn ! unat keycode
                           else if shift then keymap_shift ! unat keycode
                           else keymap_normal ! unat keycode)
                        else key);
                 kbd = kbd\<lparr>kbd_input := input_event_msc (kbd_input kbd) MSC_SCAN (ucast keycode)\<rparr>;
                 kbd = kbd\<lparr>kbd_input := input_report_key (kbd_input kbd) key False\<rparr>;
                 kbd = kbd\<lparr>last_key_pressed := (last_key_pressed kbd)[unat keycode := 0]\<rparr>
             in kbd\<lparr>kbd_input := input_sync (kbd_input kbd)\<rparr>)"

subsection \<open>Draining the FIFO (lines 352 to 409)\<close>

text \<open>
  How one run of the loop body ends: at the label \<^verbatim>\<open>next\<close> (the counter
  is incremented and the loop condition is tested again), by \<^verbatim>\<open>break\<close>,
  or by \<^verbatim>\<open>return\<close>.
\<close>

datatype flow = Next | Break | Return

definition lyra_kbd_process_fifo_body :: "i2c_bus \<Rightarrow> lyra_kbd_data \<Rightarrow> flow \<times> lyra_kbd_data" where
  "lyra_kbd_process_fifo_body bus kbd0 =
    (let (ret, kbd) = lyra_kbd_read_reg bus kbd0 REG_FIFO_ACCESS in
     if sint ret < 0 then (Return, kbd)
     else
       let fifo_data = (ucast ret :: u8);
           event_type = fifo_data AND FIFO_EVENT_TYPE_MASK;
           keycode = drop_bit FIFO_KEYCODE_SHIFT (fifo_data AND FIFO_KEYCODE_MASK)
       in
         if event_type = FIFO_EVENT_NONE then (Break, kbd)
         else if event_type = FIFO_EVENT_PRESS then
           (Next, lyra_kbd_process_key_event bus kbd keycode True)
         else if event_type = FIFO_EVENT_RELEASE then
           (Next, lyra_kbd_process_key_event bus kbd keycode False)
         else if event_type = FIFO_EVENT_HOLD then (Next, kbd)
         else (Next, kbd))"

function lyra_kbd_process_fifo_loop :: "i2c_bus \<Rightarrow> lyra_kbd_data \<Rightarrow> nat \<Rightarrow> lyra_kbd_data" where
  "lyra_kbd_process_fifo_loop bus kbd i =
    (if i < FIFO_MAX_READ then
       (case lyra_kbd_process_fifo_body bus kbd of
          (Next, kbd') \<Rightarrow> lyra_kbd_process_fifo_loop bus kbd' (i + 1)
        | (Break, kbd') \<Rightarrow> kbd'
        | (Return, kbd') \<Rightarrow> kbd')
     else kbd)"
  by pat_completeness auto
termination
  by (relation "measure (\<lambda>(bus, kbd, i). FIFO_MAX_READ - i)") auto

declare lyra_kbd_process_fifo_loop.simps [simp del]

definition lyra_kbd_process_fifo :: "i2c_bus \<Rightarrow> lyra_kbd_data \<Rightarrow> lyra_kbd_data" where
  "lyra_kbd_process_fifo bus kbd = lyra_kbd_process_fifo_loop bus kbd 0"

subsection \<open>Mouse deltas (lines 411 to 446)\<close>

definition lyra_kbd_process_mouse :: "i2c_bus \<Rightarrow> lyra_kbd_data \<Rightarrow> lyra_kbd_data" where
  "lyra_kbd_process_mouse bus kbd0 =
    (let (ret, kbd) = lyra_kbd_read_reg bus kbd0 REG_MOUSE_X in
     if sint ret < 0 then kbd
     else
       let delta_x = (ucast ret :: s8);
           (ret, kbd) = lyra_kbd_read_reg bus kbd REG_MOUSE_Y
       in
         if sint ret < 0 then kbd
         else
           let delta_y = (ucast ret :: s8);
               kbd =
                 (if delta_x \<noteq> 0 then
                    let adjusted_x = s32_div ((scast delta_x :: s32) * mouse_speed_x kbd) 100;
                        adjusted_x =
                          (if adjusted_x = 0 \<and> delta_x \<noteq> 0
                           then (if 0 < sint delta_x then 1 else - 1) else adjusted_x)
                    in kbd\<lparr>mouse_input := input_report_rel (mouse_input kbd) REL_X adjusted_x\<rparr>
                  else kbd);
               kbd =
                 (if delta_y \<noteq> 0 then
                    let adjusted_y = s32_div ((scast delta_y :: s32) * mouse_speed_y kbd) 100;
                        adjusted_y =
                          (if adjusted_y = 0 \<and> delta_y \<noteq> 0
                           then (if 0 < sint delta_y then 1 else - 1) else adjusted_y)
                    in kbd\<lparr>mouse_input := input_report_rel (mouse_input kbd) REL_Y adjusted_y\<rparr>
                  else kbd)
           in
             if delta_x \<noteq> 0 \<or> delta_y \<noteq> 0
             then kbd\<lparr>mouse_input := input_sync (mouse_input kbd)\<rparr>
             else kbd)"

subsection \<open>Power button and modifiers (lines 448 to 482)\<close>

definition lyra_kbd_process_power_button :: "lyra_kbd_data \<Rightarrow> bool \<Rightarrow> lyra_kbd_data" where
  "lyra_kbd_process_power_button kbd pressed =
    (if power_btn_pressed kbd \<noteq> pressed then
       let kbd = kbd\<lparr>power_btn_pressed := pressed\<rparr>;
           kbd = kbd\<lparr>kbd_input := input_report_key (kbd_input kbd) KEY_POWER pressed\<rparr>
       in kbd\<lparr>kbd_input := input_sync (kbd_input kbd)\<rparr>
     else kbd)"

definition lyra_kbd_sync_modifiers :: "i2c_bus \<Rightarrow> lyra_kbd_data \<Rightarrow> lyra_kbd_data" where
  "lyra_kbd_sync_modifiers bus kbd0 =
    (let (ret, kbd) = lyra_kbd_read_reg bus kbd0 REG_KEY_STATUS in
     if sint ret < 0 then kbd
     else
       let key_status = (ucast ret :: u8);
           shift = (key_status AND KEY_STATUS_SHIFT_BIT \<noteq> 0);
           alt = (key_status AND KEY_STATUS_ALT_BIT \<noteq> 0);
           kbd = kbd\<lparr>kbd_input := input_report_key (kbd_input kbd) KEY_LEFTSHIFT shift\<rparr>;
           kbd = kbd\<lparr>kbd_input := input_report_key (kbd_input kbd) KEY_LEFTALT alt\<rparr>
       in kbd\<lparr>kbd_input := input_sync (kbd_input kbd)\<rparr>)"

subsection \<open>The poll work (lines 484 to 526)\<close>

text \<open>
  The part of the tick between the read of the interrupt status and the label
  \<^verbatim>\<open>reschedule\<close> (lines 496 to 520). The test of the FIFO overflow
  bit (lines 503 and 504) only writes a warning to the log and has no branch
  here.
\<close>

definition lyra_kbd_poll_dispatch :: "i2c_bus \<Rightarrow> lyra_kbd_data \<Rightarrow> u8 \<Rightarrow> lyra_kbd_data" where
  "lyra_kbd_poll_dispatch bus kbd0 int_status =
    (let kbd =
           (if int_status AND (INT_STATUS_SHIFT_CHANGE OR INT_STATUS_ALT_CHANGE OR INT_STATUS_FN_CHANGE) \<noteq> 0
            then lyra_kbd_sync_modifiers bus kbd0 else kbd0);
         kbd =
           (if int_status AND INT_STATUS_KEY_EVENT \<noteq> 0
            then lyra_kbd_process_fifo bus kbd else kbd);
         kbd =
           (if int_status AND INT_STATUS_MOUSE_EVENT \<noteq> 0
            then lyra_kbd_process_mouse bus kbd else kbd)
     in
       if int_status AND INT_STATUS_POWER_BTN \<noteq> 0
       then lyra_kbd_process_power_button kbd (\<not> power_btn_pressed kbd)
       else kbd)"

definition lyra_kbd_poll_work :: "i2c_bus \<Rightarrow> lyra_kbd_data \<Rightarrow> lyra_kbd_data" where
  "lyra_kbd_poll_work bus kbd0 =
    (let (ret, kbd) = lyra_kbd_read_reg bus kbd0 REG_INT_STATUS;
         kbd = (if sint ret < 0 then kbd
                else lyra_kbd_poll_dispatch bus kbd (ucast ret))
     in schedule_delayed_work kbd (poll_interval_ms kbd))"

subsection \<open>Configuration attributes (lines 537 to 605)\<close>

text \<open>
  The store functions parse the written text with the kernel's
  \<^verbatim>\<open>kstrtoint\<close> and \<^verbatim>\<open>kstrtouint\<close> (\<^verbatim>\<open>lib/kstrtox.c\<close>), which
  are not part of the driver. They are parameters here: \<open>kstrtoint buf\<close> is
  \<open>Some val\<close> when \<^verbatim>\<open>kstrtoint(buf, 10, &val)\<close> returns 0 and stores
  \<open>val\<close>, and \<open>None\<close> when it returns an error. A store function returns
  the error \<^verbatim>\<open>-EINVAL\<close> or the number of bytes consumed, together with
  the driver's data as the call leaves it.
\<close>

datatype errno = EINVAL

definition mouse_speed_x_store ::
  "(string \<Rightarrow> s32 option) \<Rightarrow> lyra_kbd_data \<Rightarrow> string \<Rightarrow> nat \<Rightarrow> (errno + nat) \<times> lyra_kbd_data" where
  "mouse_speed_x_store kstrtoint kbd buf count =
    (case kstrtoint buf of
       None \<Rightarrow> (Inl EINVAL, kbd)
     | Some val \<Rightarrow>
         if sint val < 10 \<or> sint val > 500 then (Inl EINVAL, kbd)
         else (Inr count, kbd\<lparr>mouse_speed_x := val\<rparr>))"

definition mouse_speed_y_store ::
  "(string \<Rightarrow> s32 option) \<Rightarrow> lyra_kbd_data \<Rightarrow> string \<Rightarrow> nat \<Rightarrow> (errno + nat) \<times> lyra_kbd_data" where
  "mouse_speed_y_store kstrtoint kbd buf count =
    (case kstrtoint buf of
       None \<Rightarrow> (Inl EINVAL, kbd)
     | Some val \<Rightarrow>
         if sint val < 10 \<or> sint val > 500 then (Inl EINVAL, kbd)
         else (Inr count, kbd\<lparr>mouse_speed_y := val\<rparr>))"

definition poll_interval_store ::
  "(string \<Rightarrow> u32 option) \<Rightarrow> lyra_kbd_data \<Rightarrow> string \<Rightarrow> nat \<Rightarrow> (errno + nat) \<times> lyra_kbd_data" where
  "poll_interval_store kstrtouint kbd buf count =
    (case kstrtouint buf of
       None \<Rightarrow> (Inl EINVAL, kbd)
     | Some val \<Rightarrow>
         if val < 5 \<or> val > 100 then (Inl EINVAL, kbd)
         else (Inr count, kbd\<lparr>poll_interval_ms := val\<rparr>))"

subsection \<open>Probe (lines 698 to 746)\<close>

text \<open>
  The path of \<^verbatim>\<open>lyra_kbd_probe\<close> on which every allocation and
  registration succeeds: \<^verbatim>\<open>devm_kzalloc\<close> returns the data zeroed, the
  defaults are stored, the modifiers are synchronised once and the first tick
  is scheduled.
\<close>

definition lyra_kbd_probe :: "i2c_bus \<Rightarrow> lyra_kbd_data" where
  "lyra_kbd_probe bus =
    (let kbd = \<lparr>client = [], kbd_input = [], mouse_input = [], poll_work = [],
                last_key_pressed = replicate MAX_KEYCODES 0,
                mouse_speed_x = 0, mouse_speed_y = 0,
                power_btn_pressed = False, poll_interval_ms = 0\<rparr>;
         kbd = kbd\<lparr>mouse_speed_x := 100\<rparr>;
         kbd = kbd\<lparr>mouse_speed_y := 100\<rparr>;
         kbd = kbd\<lparr>poll_interval_ms := POLL_INTERVAL_MS\<rparr>;
         kbd = lyra_kbd_sync_modifiers bus kbd
     in schedule_delayed_work kbd (poll_interval_ms kbd))"

subsection \<open>Observing the bus\<close>

text \<open>How often the driver has read the FIFO access register so far.\<close>

definition fifo_reads :: "lyra_kbd_data \<Rightarrow> nat" where
  "fifo_reads kbd = count_list (client kbd) REG_FIFO_ACCESS"

subsection \<open>The scaled mouse amount of the specification\<close>

text \<open>
  The specification's rule for a non-zero delta \<open>d\<close> and a speed of \<open>s\<close>
  percent, on unbounded integers: \<open>(d * s) / 100\<close> truncated toward zero,
  and \<open>sign(d) * 1\<close> when that quotient is zero. The driver's own
  computation is part of \<^const>\<open>lyra_kbd_process_mouse\<close>; the two are
  compared below.
\<close>

definition spec_mouse_amount :: "int \<Rightarrow> int \<Rightarrow> int" where
  "spec_mouse_amount d s = (let q = (d * s) sdiv 100 in if q = 0 then sgn d * 1 else q)"

section \<open>Properties\<close>

subsection \<open>One key event\<close>


lemma key_event_invalid:
  "MAX_KEYCODES \<le> unat k \<Longrightarrow> lyra_kbd_process_key_event bus kbd k p = kbd"
  by (simp add: lyra_kbd_process_key_event_def)

lemma key_event_read_fails:
  "unat k < MAX_KEYCODES \<Longrightarrow> sint (bus (length (client kbd)) REG_KEY_STATUS) < 0 \<Longrightarrow>
   lyra_kbd_process_key_event bus kbd k p = kbd\<lparr>client := client kbd @ [REG_KEY_STATUS]\<rparr>"
  by (simp add: lyra_kbd_process_key_event_def lyra_kbd_read_reg_def)

lemma key_event_press:
  assumes "unat k < MAX_KEYCODES" "k \<notin> {25, 41, 30, 37, 33}"
    and "0 \<le> sint (bus (length (client kbd)) REG_KEY_STATUS)"
  shows "lyra_kbd_process_key_event bus kbd k True =
     (let st = (ucast (bus (length (client kbd)) REG_KEY_STATUS) :: u8);
          key = (if st AND KEY_STATUS_FN_BIT \<noteq> 0 then keymap_fn ! unat k
                 else if st AND KEY_STATUS_SHIFT_BIT \<noteq> 0 then keymap_shift ! unat k
                 else keymap_normal ! unat k)
      in kbd\<lparr>client := client kbd @ [REG_KEY_STATUS],
              last_key_pressed := (last_key_pressed kbd)[unat k := key],
              kbd_input := kbd_input kbd @ [Event_msc MSC_SCAN (ucast k), Report_key key True, Sync]\<rparr>)"
  using assms
  by (simp add: lyra_kbd_process_key_event_def lyra_kbd_read_reg_def Let_def
      input_sync_def input_report_key_def input_event_msc_def)

lemma key_event_release:
  assumes "unat k < MAX_KEYCODES" "k \<notin> {25, 41, 30, 37, 33}"
    and "0 \<le> sint (bus (length (client kbd)) REG_KEY_STATUS)"
  shows "lyra_kbd_process_key_event bus kbd k False =
     (let st = (ucast (bus (length (client kbd)) REG_KEY_STATUS) :: u8);
          key = (if last_key_pressed kbd ! unat k = 0 then
                  (if st AND KEY_STATUS_FN_BIT \<noteq> 0 then keymap_fn ! unat k
                   else if st AND KEY_STATUS_SHIFT_BIT \<noteq> 0 then keymap_shift ! unat k
                   else keymap_normal ! unat k)
                 else last_key_pressed kbd ! unat k)
      in kbd\<lparr>client := client kbd @ [REG_KEY_STATUS],
              last_key_pressed := (last_key_pressed kbd)[unat k := 0],
              kbd_input := kbd_input kbd @ [Event_msc MSC_SCAN (ucast k), Report_key key False, Sync]\<rparr>)"
  using assms
  by (simp add: lyra_kbd_process_key_event_def lyra_kbd_read_reg_def Let_def
      input_sync_def input_report_key_def input_event_msc_def)

lemma keymap_lengths:
  "length keymap_normal = 53" "length keymap_shift = 53" "length keymap_fn = 53"
  by (simp_all add: keymap_normal_def keymap_shift_def keymap_fn_def)

lemma keymap_normal_nonzero: "0 \<notin> set keymap_normal"
  by (simp add: keymap_normal_def input_event_codes)

lemma keymap_shift_nonzero: "0 \<notin> set keymap_shift"
  by (simp add: keymap_shift_def input_event_codes)

lemma keymap_fn_nonzero: "0 \<notin> set keymap_fn"
  by (simp add: keymap_fn_def input_event_codes)

lemma keymap_entry_nonzero:
  assumes "n < 53"
  shows "keymap_normal ! n \<noteq> 0" "keymap_shift ! n \<noteq> 0" "keymap_fn ! n \<noteq> 0"
  using assms keymap_normal_nonzero keymap_shift_nonzero keymap_fn_nonzero
  by (metis keymap_lengths nth_mem)+


subsection \<open>Press and release\<close>


text \<open>
  Claim C1 (press/release symmetry). For a keycode \<open>k\<close> below 53 outside the
  modifier positions 25, 41, 30, 37 and 33, a press processed in state \<open>kbd\<close>
  reports and records one logical key, the entry of the layer selected by the
  key status read at press time. A later release of \<open>k\<close>, processed in any
  state \<open>kbd2\<close> that still holds this record and under whatever key status is
  read then, reports the release of exactly the recorded key and clears the
  record.
\<close>

theorem press_release_symmetry:
  assumes k: "unat k < MAX_KEYCODES" "k \<notin> {25, 41, 30, 37, 33}"
    and len: "length (last_key_pressed kbd) = MAX_KEYCODES"
    and press_read: "0 \<le> sint (bus (length (client kbd)) REG_KEY_STATUS)"
    and kbd1: "kbd1 = lyra_kbd_process_key_event bus kbd k True"
    and between: "last_key_pressed kbd2 ! unat k = last_key_pressed kbd1 ! unat k"
    and len2: "length (last_key_pressed kbd2) = MAX_KEYCODES"
    and release_read: "0 \<le> sint (bus (length (client kbd2)) REG_KEY_STATUS)"
    and kbd3: "kbd3 = lyra_kbd_process_key_event bus kbd2 k False"
  shows "kbd_input kbd1 = kbd_input kbd @
           [Event_msc MSC_SCAN (ucast k), Report_key (last_key_pressed kbd1 ! unat k) True, Sync]
       \<and> last_key_pressed kbd1 ! unat k =
           (let st = (ucast (bus (length (client kbd)) REG_KEY_STATUS) :: u8) in
            if st AND KEY_STATUS_FN_BIT \<noteq> 0 then keymap_fn ! unat k
            else if st AND KEY_STATUS_SHIFT_BIT \<noteq> 0 then keymap_shift ! unat k
            else keymap_normal ! unat k)
       \<and> kbd_input kbd3 = kbd_input kbd2 @
           [Event_msc MSC_SCAN (ucast k), Report_key (last_key_pressed kbd1 ! unat k) False, Sync]
       \<and> last_key_pressed kbd3 ! unat k = 0"
proof -
  let ?st = "ucast (bus (length (client kbd)) REG_KEY_STATUS) :: u8"
  let ?key = "if ?st AND KEY_STATUS_FN_BIT \<noteq> 0 then keymap_fn ! unat k
            else if ?st AND KEY_STATUS_SHIFT_BIT \<noteq> 0 then keymap_shift ! unat k
            else keymap_normal ! unat k"
  have rec: "last_key_pressed kbd1 ! unat k = ?key"
    using k(1) len key_event_press [of k bus kbd] k press_read kbd1
    by (simp add: Let_def)
  have nz: "?key \<noteq> 0"
    using keymap_entry_nonzero [of "unat k"] k(1) by simp
  have ev1: "kbd_input kbd1 = kbd_input kbd @
           [Event_msc MSC_SCAN (ucast k), Report_key ?key True, Sync]"
    using key_event_press [of k bus kbd] k press_read kbd1 by (simp add: Let_def)
  have rel: "kbd3 = kbd2\<lparr>client := client kbd2 @ [REG_KEY_STATUS],
              last_key_pressed := (last_key_pressed kbd2)[unat k := 0],
              kbd_input := kbd_input kbd2 @
                [Event_msc MSC_SCAN (ucast k), Report_key ?key False, Sync]\<rparr>"
    using key_event_release [of k bus kbd2] k release_read kbd3 nz between rec
    by (simp add: Let_def)
  show ?thesis
    using rec ev1 rel len2 k(1) by (simp add: Let_def)
qed

text \<open>
  The regression of the specification at keycode 48, whose normal and shift
  layers differ: pressed with shift off (transaction 1), released with shift on
  (transaction 2), the release is reported for the normal-layer key.
\<close>

theorem press_release_symmetry_witness:
  "kbd_input (lyra_kbd_process_key_event (\<lambda>n r. if n = 2 then 1 else 0)
       (lyra_kbd_process_key_event (\<lambda>n r. if n = 2 then 1 else 0)
          (lyra_kbd_probe (\<lambda>n r. if n = 2 then 1 else 0)) 48 True) 48 False)
   = kbd_input (lyra_kbd_process_key_event (\<lambda>n r. if n = 2 then 1 else 0)
          (lyra_kbd_probe (\<lambda>n r. if n = 2 then 1 else 0)) 48 True)
     @ [Event_msc MSC_SCAN 48, Report_key BTN_LEFT False, Sync]
   \<and> keymap_shift ! 48 = BTN_RIGHT \<and> BTN_LEFT \<noteq> BTN_RIGHT"
proof -
  let ?bus = "(\<lambda>n r. if n = 2 then 1 else 0) :: i2c_bus"
  let ?kbd = "lyra_kbd_probe ?bus"
  let ?kbd1 = "lyra_kbd_process_key_event ?bus ?kbd 48 True"
  have c: "client ?kbd = [REG_KEY_STATUS]" "length (last_key_pressed ?kbd) = MAX_KEYCODES"
    by (simp_all add: lyra_kbd_probe_def lyra_kbd_sync_modifiers_def lyra_kbd_read_reg_def
        schedule_delayed_work_def Let_def)
  have c1: "client ?kbd1 = [REG_KEY_STATUS, REG_KEY_STATUS]"
       "length (last_key_pressed ?kbd1) = MAX_KEYCODES"
       "last_key_pressed ?kbd1 ! 48 = BTN_LEFT"
    using c by (simp_all add: lyra_kbd_process_key_event_def lyra_kbd_read_reg_def Let_def
        keymap_normal_def)
  have "kbd_input (lyra_kbd_process_key_event ?bus ?kbd1 48 False) = kbd_input ?kbd1 @
           [Event_msc MSC_SCAN (ucast (48 :: u8)), Report_key (last_key_pressed ?kbd1 ! unat (48 :: u8)) False, Sync]"
    using press_release_symmetry [of 48 ?kbd ?bus ?kbd1 ?kbd1 "lyra_kbd_process_key_event ?bus ?kbd1 48 False"] c c1
    by simp
  then show ?thesis
    using c1 by (simp add: keymap_shift_def input_event_codes)
qed

subsection \<open>Layer selection\<close>

text \<open>
  Claim C2 (layer priority). For a keycode \<open>k\<close> below 53 outside the modifier
  positions, a press reports and records the key \<open>key\<close>; with the fn and
  shift bits of the key status both set it is the entry of the fn layer, with
  shift set and fn clear the entry of the shift layer, with both clear the entry
  of the normal layer.
\<close>


theorem layer_priority:
  assumes k: "unat k < MAX_KEYCODES" "k \<notin> {25, 41, 30, 37, 33}"
    and len: "length (last_key_pressed kbd) = MAX_KEYCODES"
    and rd: "0 \<le> sint (bus (length (client kbd)) REG_KEY_STATUS)"
    and st: "st = (ucast (bus (length (client kbd)) REG_KEY_STATUS) :: u8)"
    and kbd': "kbd' = lyra_kbd_process_key_event bus kbd k True"
    and key: "key = last_key_pressed kbd' ! unat k"
  shows "kbd_input kbd' = kbd_input kbd @
           [Event_msc MSC_SCAN (ucast k), Report_key key True, Sync]
       \<and> (st AND KEY_STATUS_FN_BIT \<noteq> 0 \<and> st AND KEY_STATUS_SHIFT_BIT \<noteq> 0 \<longrightarrow>
            key = keymap_fn ! unat k)
       \<and> (st AND KEY_STATUS_FN_BIT = 0 \<and> st AND KEY_STATUS_SHIFT_BIT \<noteq> 0 \<longrightarrow>
            key = keymap_shift ! unat k)
       \<and> (st AND KEY_STATUS_FN_BIT = 0 \<and> st AND KEY_STATUS_SHIFT_BIT = 0 \<longrightarrow>
            key = keymap_normal ! unat k)"
  using key_event_press [of k bus kbd] k rd len st kbd' key
  by (simp add: Let_def)

text \<open>Keycode 48 under the key status 5 (fn and shift), 1 (shift) and 0.\<close>


theorem layer_priority_witness:
  "last_key_pressed (lyra_kbd_process_key_event (\<lambda>n r. 5) (lyra_kbd_probe (\<lambda>n r. 5)) 48 True) ! 48
     = BTN_MIDDLE
   \<and> last_key_pressed (lyra_kbd_process_key_event (\<lambda>n r. 1) (lyra_kbd_probe (\<lambda>n r. 1)) 48 True) ! 48
     = BTN_RIGHT
   \<and> last_key_pressed (lyra_kbd_process_key_event (\<lambda>n r. 0) (lyra_kbd_probe (\<lambda>n r. 0)) 48 True) ! 48
     = BTN_LEFT"
proof -
  have c: "client (lyra_kbd_probe bus) = [REG_KEY_STATUS]"
    "length (last_key_pressed (lyra_kbd_probe bus)) = MAX_KEYCODES" for bus
    by (simp_all add: lyra_kbd_probe_def lyra_kbd_sync_modifiers_def lyra_kbd_read_reg_def
        schedule_delayed_work_def Let_def)
  have t: "keymap_fn ! 48 = BTN_MIDDLE" "keymap_shift ! 48 = BTN_RIGHT" "keymap_normal ! 48 = BTN_LEFT"
    by (simp_all add: keymap_fn_def keymap_shift_def keymap_normal_def)
  have k: "unat (48 :: u8) < MAX_KEYCODES" "(48 :: u8) \<notin> {25, 41, 30, 37, 33}"
    by simp_all
  have a: "last_key_pressed (lyra_kbd_process_key_event (\<lambda>n r. 5) (lyra_kbd_probe (\<lambda>n r. 5)) 48 True) ! 48
     = BTN_MIDDLE"
    using layer_priority [where k = 48 and kbd = "lyra_kbd_probe (\<lambda>n r. 5)" and bus = "\<lambda>n r. 5"
        and st = 5, OF k c(2) _ _ refl refl]
    by (simp add: t)
  have b: "last_key_pressed (lyra_kbd_process_key_event (\<lambda>n r. 1) (lyra_kbd_probe (\<lambda>n r. 1)) 48 True) ! 48
     = BTN_RIGHT"
    using layer_priority [where k = 48 and kbd = "lyra_kbd_probe (\<lambda>n r. 1)" and bus = "\<lambda>n r. 1"
        and st = 1, OF k c(2) _ _ refl refl]
    by (simp add: t)
  have d: "last_key_pressed (lyra_kbd_process_key_event (\<lambda>n r. 0) (lyra_kbd_probe (\<lambda>n r. 0)) 48 True) ! 48
     = BTN_LEFT"
    using layer_priority [where k = 48 and kbd = "lyra_kbd_probe (\<lambda>n r. 0)" and bus = "\<lambda>n r. 0"
        and st = 0, OF k c(2) _ _ refl refl]
    by (simp add: t)
  show ?thesis using a b d by simp
qed

subsection \<open>Zero as the mark of an idle keycode\<close>

text \<open>
  Claim C9. No layer holds the key code 0 at any of its 53 positions. So a press
  of a keycode \<open>k\<close> below 53 outside the modifier positions always leaves a
  non-zero record in \<open>last_key_pressed\<close>, and a release reports the recorded
  key whenever the record is non-zero; only a zero record, which no press
  leaves, makes the release resolve \<open>k\<close> against the key status read at
  release time.
\<close>
theorem logical_keys_nonzero:
  assumes k: "unat k < MAX_KEYCODES" "k \<notin> {25, 41, 30, 37, 33}"
    and len: "length (last_key_pressed kbd) = MAX_KEYCODES"
    and rd: "0 \<le> sint (bus (length (client kbd)) REG_KEY_STATUS)"
    and st: "st = (ucast (bus (length (client kbd)) REG_KEY_STATUS) :: u8)"
  shows "0 \<notin> set keymap_normal \<and> 0 \<notin> set keymap_shift \<and> 0 \<notin> set keymap_fn
       \<and> length keymap_normal = MAX_KEYCODES \<and> length keymap_shift = MAX_KEYCODES
       \<and> length keymap_fn = MAX_KEYCODES
       \<and> last_key_pressed (lyra_kbd_process_key_event bus kbd k True) ! unat k \<noteq> 0
       \<and> kbd_input (lyra_kbd_process_key_event bus kbd k False) = kbd_input kbd @
           [Event_msc MSC_SCAN (ucast k),
            Report_key
              (if last_key_pressed kbd ! unat k \<noteq> 0 then last_key_pressed kbd ! unat k
               else if st AND KEY_STATUS_FN_BIT \<noteq> 0 then keymap_fn ! unat k
               else if st AND KEY_STATUS_SHIFT_BIT \<noteq> 0 then keymap_shift ! unat k
               else keymap_normal ! unat k) False,
            Sync]"
proof -
  have "last_key_pressed (lyra_kbd_process_key_event bus kbd k True) ! unat k \<noteq> 0"
    using key_event_press [of k bus kbd] k rd len keymap_entry_nonzero [of "unat k"]
    by (simp add: Let_def)
  moreover have "kbd_input (lyra_kbd_process_key_event bus kbd k False) = kbd_input kbd @
           [Event_msc MSC_SCAN (ucast k),
            Report_key
              (if last_key_pressed kbd ! unat k \<noteq> 0 then last_key_pressed kbd ! unat k
               else if st AND KEY_STATUS_FN_BIT \<noteq> 0 then keymap_fn ! unat k
               else if st AND KEY_STATUS_SHIFT_BIT \<noteq> 0 then keymap_shift ! unat k
               else keymap_normal ! unat k) False,
            Sync]"
    using key_event_release [of k bus kbd] k rd st by (simp add: Let_def)
  ultimately show ?thesis
    using keymap_normal_nonzero keymap_shift_nonzero keymap_fn_nonzero keymap_lengths
    by simp
qed

text \<open>Keycode 7 with fn held: the press records the fn-layer key, a release
  without a record falls back to it.\<close>

theorem logical_keys_nonzero_witness:
  "last_key_pressed (lyra_kbd_process_key_event (\<lambda>n r. 4) (lyra_kbd_probe (\<lambda>n r. 4)) 7 True) ! 7
     = KEY_MINUS \<and> KEY_MINUS \<noteq> 0
   \<and> kbd_input (lyra_kbd_process_key_event (\<lambda>n r. 4) (lyra_kbd_probe (\<lambda>n r. 4)) 7 False)
     = kbd_input (lyra_kbd_probe (\<lambda>n r. 4)) @ [Event_msc MSC_SCAN 7, Report_key KEY_MINUS False, Sync]"
proof -
  have c: "client (lyra_kbd_probe bus) = [REG_KEY_STATUS]"
    "last_key_pressed (lyra_kbd_probe bus) = replicate MAX_KEYCODES 0" for bus
    by (simp_all add: lyra_kbd_probe_def lyra_kbd_sync_modifiers_def lyra_kbd_read_reg_def
        schedule_delayed_work_def Let_def)
  have t: "keymap_fn ! 7 = KEY_MINUS"
    by (simp add: keymap_fn_def)
  have p: "last_key_pressed (lyra_kbd_process_key_event (\<lambda>n r. 4) (lyra_kbd_probe (\<lambda>n r. 4)) 7 True) ! 7
     = KEY_MINUS"
    by (simp add: lyra_kbd_process_key_event_def lyra_kbd_read_reg_def c t Let_def)
  show ?thesis
    using logical_keys_nonzero [of 7 "lyra_kbd_probe (\<lambda>n r. 4)" "\<lambda>n r. 4" 4] p
    by (simp add: c t KEY_MINUS_def)
qed

subsection \<open>The drain loop, one iteration at a time\<close>


lemma fifo_loop_next:
  "i < FIFO_MAX_READ \<Longrightarrow> lyra_kbd_process_fifo_body bus kbd = (Next, kbd') \<Longrightarrow>
   lyra_kbd_process_fifo_loop bus kbd i = lyra_kbd_process_fifo_loop bus kbd' (i + 1)"
  by (subst lyra_kbd_process_fifo_loop.simps) simp

lemma fifo_loop_stop:
  "i < FIFO_MAX_READ \<Longrightarrow> lyra_kbd_process_fifo_body bus kbd = (f, kbd') \<Longrightarrow> f \<noteq> Next \<Longrightarrow>
   lyra_kbd_process_fifo_loop bus kbd i = kbd'"
  by (subst lyra_kbd_process_fifo_loop.simps) (cases f; simp)

lemma fifo_loop_done:
  "FIFO_MAX_READ \<le> i \<Longrightarrow> lyra_kbd_process_fifo_loop bus kbd i = kbd"
  by (subst lyra_kbd_process_fifo_loop.simps) simp

text \<open>The driver's data as the probe leaves it.\<close>


lemma probe_state:
  "client (lyra_kbd_probe bus) = [REG_KEY_STATUS]"
  "last_key_pressed (lyra_kbd_probe bus) = replicate MAX_KEYCODES 0"
  "poll_work (lyra_kbd_probe bus) = [POLL_INTERVAL_MS]"
  "poll_interval_ms (lyra_kbd_probe bus) = POLL_INTERVAL_MS"
  "mouse_speed_x (lyra_kbd_probe bus) = 100"
  "mouse_speed_y (lyra_kbd_probe bus) = 100"
  "power_btn_pressed (lyra_kbd_probe bus) = False"
  "mouse_input (lyra_kbd_probe bus) = []"
  by (simp_all add: lyra_kbd_probe_def lyra_kbd_sync_modifiers_def lyra_kbd_read_reg_def
      schedule_delayed_work_def Let_def)

subsection \<open>Hold events\<close>

text \<open>
  Claim C7 (hold events are inert). When the entry read from the FIFO register
  has the event type Hold (low two bits 10), the loop body does nothing but
  that read: \<open>last_key_pressed\<close> and the events reported to the keyboard
  device are as before, and the loop goes on with the next iteration.
\<close>
theorem hold_events_inert:
  assumes i: "i < FIFO_MAX_READ"
    and rd: "0 \<le> sint (bus (length (client kbd)) REG_FIFO_ACCESS)"
    and hold: "(ucast (bus (length (client kbd)) REG_FIFO_ACCESS) :: u8) AND FIFO_EVENT_TYPE_MASK
                 = FIFO_EVENT_HOLD"
  shows "lyra_kbd_process_fifo_body bus kbd = (Next, kbd\<lparr>client := client kbd @ [REG_FIFO_ACCESS]\<rparr>)
       \<and> last_key_pressed (snd (lyra_kbd_process_fifo_body bus kbd)) = last_key_pressed kbd
       \<and> kbd_input (snd (lyra_kbd_process_fifo_body bus kbd)) = kbd_input kbd
       \<and> lyra_kbd_process_fifo_loop bus kbd i =
           lyra_kbd_process_fifo_loop bus (kbd\<lparr>client := client kbd @ [REG_FIFO_ACCESS]\<rparr>) (i + 1)"
proof -
  have b: "lyra_kbd_process_fifo_body bus kbd = (Next, kbd\<lparr>client := client kbd @ [REG_FIFO_ACCESS]\<rparr>)"
    using rd hold by (simp add: lyra_kbd_process_fifo_body_def lyra_kbd_read_reg_def Let_def)
  show ?thesis
    using b fifo_loop_next [OF i b] by simp
qed

text \<open>A FIFO that holds one Hold entry for keycode 5 (byte 0x16) and is then
  empty.\<close>
theorem hold_events_inert_witness:
  "last_key_pressed (lyra_kbd_process_fifo (\<lambda>n r. if n = 1 then 0x16 else 0)
       (lyra_kbd_probe (\<lambda>n r. if n = 1 then 0x16 else 0)))
     = last_key_pressed (lyra_kbd_probe (\<lambda>n r. if n = 1 then 0x16 else 0))
   \<and> kbd_input (lyra_kbd_process_fifo (\<lambda>n r. if n = 1 then 0x16 else 0)
       (lyra_kbd_probe (\<lambda>n r. if n = 1 then 0x16 else 0)))
     = kbd_input (lyra_kbd_probe (\<lambda>n r. if n = 1 then 0x16 else 0))
   \<and> client (lyra_kbd_process_fifo (\<lambda>n r. if n = 1 then 0x16 else 0)
       (lyra_kbd_probe (\<lambda>n r. if n = 1 then 0x16 else 0)))
     = [REG_KEY_STATUS, REG_FIFO_ACCESS, REG_FIFO_ACCESS]"
proof -
  let ?bus = "(\<lambda>n r. if n = 1 then 0x16 else 0) :: i2c_bus"
  let ?kbd = "lyra_kbd_probe ?bus"
  let ?kbd1 = "?kbd\<lparr>client := client ?kbd @ [REG_FIFO_ACCESS]\<rparr>"
  have step: "lyra_kbd_process_fifo_loop ?bus ?kbd 0 = lyra_kbd_process_fifo_loop ?bus ?kbd1 (0 + 1)"
    using hold_events_inert [of 0 ?bus ?kbd] by (simp add: probe_state)
  have "lyra_kbd_process_fifo_body ?bus ?kbd1
          = (Break, ?kbd1\<lparr>client := client ?kbd1 @ [REG_FIFO_ACCESS]\<rparr>)"
    by (simp add: lyra_kbd_process_fifo_body_def lyra_kbd_read_reg_def probe_state)
  then have "lyra_kbd_process_fifo_loop ?bus ?kbd1 (0 + 1)
          = ?kbd1\<lparr>client := client ?kbd1 @ [REG_FIFO_ACCESS]\<rparr>"
    by (rule fifo_loop_stop [rotated]) simp_all
  with step show ?thesis
    by (simp add: lyra_kbd_process_fifo_def probe_state)
qed

subsection \<open>A failed read of the key status inside a key event\<close>

text \<open>
  Claim C10. When the FIFO entry is a press or a release of a keycode below 53
  and the read of the key status register that follows fails, the event is
  dropped: processing it only issues the read, no event is reported and
  \<open>last_key_pressed\<close> keeps its contents (a dropped release leaves the
  record of the press in place). The loop body ends at \<^verbatim>\<open>next\<close> and the
  drain goes on with the following iteration.
\<close>
theorem key_status_error_drops_event:
  assumes i: "i < FIFO_MAX_READ"
    and rd: "0 \<le> sint (bus (length (client kbd)) REG_FIFO_ACCESS)"
    and fifo: "fifo_data = (ucast (bus (length (client kbd)) REG_FIFO_ACCESS) :: u8)"
    and ev: "fifo_data AND FIFO_EVENT_TYPE_MASK = FIFO_EVENT_PRESS
           \<or> fifo_data AND FIFO_EVENT_TYPE_MASK = FIFO_EVENT_RELEASE"
    and kc: "keycode = drop_bit FIFO_KEYCODE_SHIFT (fifo_data AND FIFO_KEYCODE_MASK)"
    and valid: "unat keycode < MAX_KEYCODES"
    and err: "sint (bus (length (client kbd) + 1) REG_KEY_STATUS) < 0"
    and kbd1: "kbd1 = kbd\<lparr>client := client kbd @ [REG_FIFO_ACCESS]\<rparr>"
  shows "lyra_kbd_process_key_event bus kbd1 keycode pressed
           = kbd1\<lparr>client := client kbd1 @ [REG_KEY_STATUS]\<rparr>
       \<and> kbd_input (lyra_kbd_process_key_event bus kbd1 keycode pressed) = kbd_input kbd
       \<and> last_key_pressed (lyra_kbd_process_key_event bus kbd1 keycode pressed) = last_key_pressed kbd
       \<and> lyra_kbd_process_fifo_body bus kbd
           = (Next, kbd\<lparr>client := client kbd @ [REG_FIFO_ACCESS, REG_KEY_STATUS]\<rparr>)
       \<and> lyra_kbd_process_fifo_loop bus kbd i =
           lyra_kbd_process_fifo_loop bus
             (kbd\<lparr>client := client kbd @ [REG_FIFO_ACCESS, REG_KEY_STATUS]\<rparr>) (i + 1)"
proof -
  have e: "lyra_kbd_process_key_event bus kbd1 keycode p
           = kbd1\<lparr>client := client kbd1 @ [REG_KEY_STATUS]\<rparr>" for p
    using key_event_read_fails [of keycode bus kbd1 p] valid err kbd1 by simp
  have b: "lyra_kbd_process_fifo_body bus kbd
           = (Next, kbd\<lparr>client := client kbd @ [REG_FIFO_ACCESS, REG_KEY_STATUS]\<rparr>)"
    using rd ev e [of True] e [of False] unfolding fifo kc kbd1
    by (auto simp add: lyra_kbd_process_fifo_body_def lyra_kbd_read_reg_def Let_def)
  show ?thesis
    using e [of pressed] b fifo_loop_next [OF i b] kbd1 by simp
qed

text \<open>A press of keycode 5 (byte 0x15) whose key status read fails, followed
  by an empty FIFO.\<close>
theorem key_status_error_drops_event_witness:
  "last_key_pressed (lyra_kbd_process_fifo (\<lambda>n r. if n = 1 then 0x15 else if n = 2 then - 1 else 0)
       (lyra_kbd_probe (\<lambda>n r. if n = 1 then 0x15 else if n = 2 then - 1 else 0)))
     = last_key_pressed (lyra_kbd_probe (\<lambda>n r. if n = 1 then 0x15 else if n = 2 then - 1 else 0))
   \<and> kbd_input (lyra_kbd_process_fifo (\<lambda>n r. if n = 1 then 0x15 else if n = 2 then - 1 else 0)
       (lyra_kbd_probe (\<lambda>n r. if n = 1 then 0x15 else if n = 2 then - 1 else 0)))
     = kbd_input (lyra_kbd_probe (\<lambda>n r. if n = 1 then 0x15 else if n = 2 then - 1 else 0))
   \<and> client (lyra_kbd_process_fifo (\<lambda>n r. if n = 1 then 0x15 else if n = 2 then - 1 else 0)
       (lyra_kbd_probe (\<lambda>n r. if n = 1 then 0x15 else if n = 2 then - 1 else 0)))
     = [REG_KEY_STATUS, REG_FIFO_ACCESS, REG_KEY_STATUS, REG_FIFO_ACCESS]"
proof -
  let ?bus = "(\<lambda>n r. if n = 1 then 0x15 else if n = 2 then - 1 else 0) :: i2c_bus"
  let ?kbd = "lyra_kbd_probe ?bus"
  let ?kbd1 = "?kbd\<lparr>client := client ?kbd @ [REG_FIFO_ACCESS, REG_KEY_STATUS]\<rparr>"
  have step: "lyra_kbd_process_fifo_loop ?bus ?kbd 0 = lyra_kbd_process_fifo_loop ?bus ?kbd1 (0 + 1)"
    using key_status_error_drops_event [of 0 ?bus ?kbd "0x15" 5
        "?kbd\<lparr>client := client ?kbd @ [REG_FIFO_ACCESS]\<rparr>" True]
    by (simp add: probe_state)
  have "lyra_kbd_process_fifo_body ?bus ?kbd1
          = (Break, ?kbd1\<lparr>client := client ?kbd1 @ [REG_FIFO_ACCESS]\<rparr>)"
    by (simp add: lyra_kbd_process_fifo_body_def lyra_kbd_read_reg_def probe_state)
  then have "lyra_kbd_process_fifo_loop ?bus ?kbd1 (0 + 1)
          = ?kbd1\<lparr>client := client ?kbd1 @ [REG_FIFO_ACCESS]\<rparr>"
    by (rule fifo_loop_stop [rotated]) simp_all
  with step show ?thesis
    by (simp add: lyra_kbd_process_fifo_def probe_state)
qed

subsection \<open>Reads of the FIFO register\<close>



lemma key_event_client:
  "client (lyra_kbd_process_key_event bus kbd k p) = client kbd
   \<or> client (lyra_kbd_process_key_event bus kbd k p) = client kbd @ [REG_KEY_STATUS]"
  by (simp add: lyra_kbd_process_key_event_def lyra_kbd_read_reg_def Let_def)

lemma key_event_fifo_reads:
  "fifo_reads (lyra_kbd_process_key_event bus kbd k p) = fifo_reads kbd"
  using key_event_client [of bus kbd k p] by (auto simp add: fifo_reads_def)

lemma fifo_body_reads:
  assumes "lyra_kbd_process_fifo_body bus kbd = (f, kbd')"
  shows "fifo_reads kbd' = fifo_reads kbd + 1"
  using assms
  by (auto simp add: lyra_kbd_process_fifo_body_def lyra_kbd_read_reg_def Let_def
      key_event_fifo_reads split: if_splits)
    (simp_all add: fifo_reads_def)

lemma fifo_body_stop:
  assumes "lyra_kbd_process_fifo_body bus kbd = (f, kbd')" "f \<noteq> Next"
  shows "client kbd' = client kbd @ [REG_FIFO_ACCESS]
       \<and> (sint (bus (length (client kbd)) REG_FIFO_ACCESS) < 0
          \<or> (ucast (bus (length (client kbd)) REG_FIFO_ACCESS) :: u8) AND FIFO_EVENT_TYPE_MASK
              = FIFO_EVENT_NONE)"
  using assms
  by (auto simp add: lyra_kbd_process_fifo_body_def lyra_kbd_read_reg_def Let_def
      split: if_splits)

lemma fifo_loop_reads:
  "i \<le> FIFO_MAX_READ \<Longrightarrow>
   fifo_reads kbd \<le> fifo_reads (lyra_kbd_process_fifo_loop bus kbd i)
   \<and> fifo_reads (lyra_kbd_process_fifo_loop bus kbd i) + i \<le> fifo_reads kbd + FIFO_MAX_READ
   \<and> (fifo_reads (lyra_kbd_process_fifo_loop bus kbd i) + i < fifo_reads kbd + FIFO_MAX_READ \<longrightarrow>
        client (lyra_kbd_process_fifo_loop bus kbd i) \<noteq> []
      \<and> last (client (lyra_kbd_process_fifo_loop bus kbd i)) = REG_FIFO_ACCESS
      \<and> (sint (bus (length (client (lyra_kbd_process_fifo_loop bus kbd i)) - 1) REG_FIFO_ACCESS) < 0
         \<or> (ucast (bus (length (client (lyra_kbd_process_fifo_loop bus kbd i)) - 1) REG_FIFO_ACCESS) :: u8)
              AND FIFO_EVENT_TYPE_MASK = FIFO_EVENT_NONE))"
proof (induction "FIFO_MAX_READ - i" arbitrary: i kbd)
  case 0
  then show ?case by (simp add: fifo_loop_done)
next
  case (Suc d)
  then have i: "i < FIFO_MAX_READ" by simp
  obtain f kbd1 where b: "lyra_kbd_process_fifo_body bus kbd = (f, kbd1)"
    by (cases "lyra_kbd_process_fifo_body bus kbd")
  note r = fifo_body_reads [OF b]
  show ?case
  proof (cases "f = Next")
    case True
    then have l: "lyra_kbd_process_fifo_loop bus kbd i = lyra_kbd_process_fifo_loop bus kbd1 (i + 1)"
      using fifo_loop_next [OF i] b by simp
    have "d = FIFO_MAX_READ - (i + 1)" "i + 1 \<le> FIFO_MAX_READ"
      using Suc.hyps(2) i by simp_all
    from Suc.hyps(1) [OF this, of kbd1] show ?thesis
      unfolding l using r by simp
  next
    case False
    then have l: "lyra_kbd_process_fifo_loop bus kbd i = kbd1"
      using fifo_loop_stop [OF i b] by simp
    show ?thesis
      unfolding l using r fifo_body_stop [OF b False] i by simp
  qed
qed

subsection \<open>What the parts of a tick leave alone\<close>


lemma key_event_frame:
  "poll_work (lyra_kbd_process_key_event bus kbd k p) = poll_work kbd"
  "poll_interval_ms (lyra_kbd_process_key_event bus kbd k p) = poll_interval_ms kbd"
  "power_btn_pressed (lyra_kbd_process_key_event bus kbd k p) = power_btn_pressed kbd"
  by (simp_all add: lyra_kbd_process_key_event_def lyra_kbd_read_reg_def Let_def)

lemma key_event_kbd_input:
  "\<exists>evs. kbd_input (lyra_kbd_process_key_event bus kbd k p) = kbd_input kbd @ evs"
  by (simp add: lyra_kbd_process_key_event_def lyra_kbd_read_reg_def Let_def
      input_sync_def input_report_key_def input_event_msc_def)

lemma fifo_body_frame:
  assumes "lyra_kbd_process_fifo_body bus kbd = (f, kbd')"
  shows "poll_work kbd' = poll_work kbd \<and> poll_interval_ms kbd' = poll_interval_ms kbd
       \<and> power_btn_pressed kbd' = power_btn_pressed kbd
       \<and> (\<exists>evs. kbd_input kbd' = kbd_input kbd @ evs)"
  using assms key_event_kbd_input [of bus "kbd\<lparr>client := client kbd @ [REG_FIFO_ACCESS]\<rparr>"]
  by (auto simp add: lyra_kbd_process_fifo_body_def lyra_kbd_read_reg_def Let_def
      key_event_frame split: if_splits)

lemma fifo_loop_frame:
  "poll_work (lyra_kbd_process_fifo_loop bus kbd i) = poll_work kbd
   \<and> poll_interval_ms (lyra_kbd_process_fifo_loop bus kbd i) = poll_interval_ms kbd
   \<and> power_btn_pressed (lyra_kbd_process_fifo_loop bus kbd i) = power_btn_pressed kbd
   \<and> (\<exists>evs. kbd_input (lyra_kbd_process_fifo_loop bus kbd i) = kbd_input kbd @ evs)"
proof (induction "FIFO_MAX_READ - i" arbitrary: i kbd)
  case 0
  then show ?case by (simp add: fifo_loop_done)
next
  case (Suc d)
  then have i: "i < FIFO_MAX_READ" by simp
  obtain f kbd1 where b: "lyra_kbd_process_fifo_body bus kbd = (f, kbd1)"
    by (cases "lyra_kbd_process_fifo_body bus kbd")
  note r = fifo_body_frame [OF b]
  show ?case
  proof (cases "f = Next")
    case True
    then have l: "lyra_kbd_process_fifo_loop bus kbd i = lyra_kbd_process_fifo_loop bus kbd1 (i + 1)"
      using fifo_loop_next [OF i] b by simp
    have "d = FIFO_MAX_READ - (i + 1)"
      using Suc.hyps(2) by simp
    from Suc.hyps(1) [OF this, of kbd1] show ?thesis
      unfolding l using r by auto
  next
    case False
    then have l: "lyra_kbd_process_fifo_loop bus kbd i = kbd1"
      using fifo_loop_stop [OF i b] by simp
    show ?thesis
      unfolding l using r by simp
  qed
qed

lemma sync_modifiers_frame:
  "poll_work (lyra_kbd_sync_modifiers bus kbd) = poll_work kbd"
  "poll_interval_ms (lyra_kbd_sync_modifiers bus kbd) = poll_interval_ms kbd"
  "power_btn_pressed (lyra_kbd_sync_modifiers bus kbd) = power_btn_pressed kbd"
  "fifo_reads (lyra_kbd_sync_modifiers bus kbd) = fifo_reads kbd"
  "\<exists>evs. kbd_input (lyra_kbd_sync_modifiers bus kbd) = kbd_input kbd @ evs"
  by (simp_all add: lyra_kbd_sync_modifiers_def lyra_kbd_read_reg_def Let_def fifo_reads_def
      input_sync_def input_report_key_def)

lemma process_mouse_frame:
  "poll_work (lyra_kbd_process_mouse bus kbd) = poll_work kbd"
  "poll_interval_ms (lyra_kbd_process_mouse bus kbd) = poll_interval_ms kbd"
  "power_btn_pressed (lyra_kbd_process_mouse bus kbd) = power_btn_pressed kbd"
  "fifo_reads (lyra_kbd_process_mouse bus kbd) = fifo_reads kbd"
  "kbd_input (lyra_kbd_process_mouse bus kbd) = kbd_input kbd"
  by (simp_all add: lyra_kbd_process_mouse_def lyra_kbd_read_reg_def Let_def fifo_reads_def)

lemma power_button_frame:
  "poll_work (lyra_kbd_process_power_button kbd p) = poll_work kbd"
  "poll_interval_ms (lyra_kbd_process_power_button kbd p) = poll_interval_ms kbd"
  "fifo_reads (lyra_kbd_process_power_button kbd p) = fifo_reads kbd"
  by (simp_all add: lyra_kbd_process_power_button_def Let_def fifo_reads_def)

lemma power_button_toggle:
  "lyra_kbd_process_power_button kbd (\<not> power_btn_pressed kbd) =
     kbd\<lparr>power_btn_pressed := \<not> power_btn_pressed kbd,
         kbd_input := kbd_input kbd @ [Report_key KEY_POWER (\<not> power_btn_pressed kbd), Sync]\<rparr>"
  by (simp add: lyra_kbd_process_power_button_def Let_def input_sync_def input_report_key_def)

lemma process_fifo_frame:
  "poll_work (lyra_kbd_process_fifo bus kbd) = poll_work kbd"
  "poll_interval_ms (lyra_kbd_process_fifo bus kbd) = poll_interval_ms kbd"
  "power_btn_pressed (lyra_kbd_process_fifo bus kbd) = power_btn_pressed kbd"
  "\<exists>evs. kbd_input (lyra_kbd_process_fifo bus kbd) = kbd_input kbd @ evs"
  using fifo_loop_frame [of bus kbd 0] by (simp_all add: lyra_kbd_process_fifo_def)

lemma poll_dispatch_frame:
  "poll_work (lyra_kbd_poll_dispatch bus kbd s) = poll_work kbd"
  "poll_interval_ms (lyra_kbd_poll_dispatch bus kbd s) = poll_interval_ms kbd"
  by (simp_all add: lyra_kbd_poll_dispatch_def Let_def power_button_frame process_mouse_frame
      process_fifo_frame sync_modifiers_frame)

lemma poll_dispatch_fifo_reads:
  "fifo_reads (lyra_kbd_poll_dispatch bus kbd s) \<le> fifo_reads kbd + FIFO_MAX_READ"
  using fifo_loop_reads [of 0 kbd bus] fifo_loop_reads [of 0 "lyra_kbd_sync_modifiers bus kbd" bus]
  by (simp add: lyra_kbd_poll_dispatch_def Let_def power_button_frame process_mouse_frame
      sync_modifiers_frame lyra_kbd_process_fifo_def)

lemma poll_dispatch_power:
  assumes "s AND INT_STATUS_POWER_BTN \<noteq> 0"
  shows "power_btn_pressed (lyra_kbd_poll_dispatch bus kbd s) = (\<not> power_btn_pressed kbd)
       \<and> (\<exists>evs. kbd_input (lyra_kbd_poll_dispatch bus kbd s) =
             kbd_input kbd @ evs @ [Report_key KEY_POWER (\<not> power_btn_pressed kbd), Sync])"
proof -
  define k1 where "k1 =
     (if s AND (INT_STATUS_SHIFT_CHANGE OR INT_STATUS_ALT_CHANGE OR INT_STATUS_FN_CHANGE) \<noteq> 0
      then lyra_kbd_sync_modifiers bus kbd else kbd)"
  define k2 where "k2 = (if s AND INT_STATUS_KEY_EVENT \<noteq> 0 then lyra_kbd_process_fifo bus k1 else k1)"
  define k3 where "k3 = (if s AND INT_STATUS_MOUSE_EVENT \<noteq> 0 then lyra_kbd_process_mouse bus k2 else k2)"
  have d: "lyra_kbd_poll_dispatch bus kbd s = lyra_kbd_process_power_button k3 (\<not> power_btn_pressed k3)"
    using assms by (simp add: lyra_kbd_poll_dispatch_def Let_def k1_def k2_def k3_def)
  have p1: "power_btn_pressed k1 = power_btn_pressed kbd" "\<exists>evs. kbd_input k1 = kbd_input kbd @ evs"
    by (simp_all add: k1_def sync_modifiers_frame)
  have p2: "power_btn_pressed k2 = power_btn_pressed k1" "\<exists>evs. kbd_input k2 = kbd_input k1 @ evs"
    by (simp_all add: k2_def process_fifo_frame)
  have p3: "power_btn_pressed k3 = power_btn_pressed k2" "kbd_input k3 = kbd_input k2"
    by (simp_all add: k3_def process_mouse_frame)
  from p1 p2 p3 obtain evs where e: "kbd_input k3 = kbd_input kbd @ evs"
    by auto
  have pw: "power_btn_pressed k3 = power_btn_pressed kbd"
    using p1(1) p2(1) p3(1) by simp
  have "kbd_input (lyra_kbd_poll_dispatch bus kbd s) =
          kbd_input kbd @ evs @ [Report_key KEY_POWER (\<not> power_btn_pressed kbd), Sync]"
    unfolding d power_button_toggle by (simp add: e pw)
  moreover have "power_btn_pressed (lyra_kbd_poll_dispatch bus kbd s) = (\<not> power_btn_pressed kbd)"
    unfolding d power_button_toggle by (simp add: pw)
  ultimately show ?thesis by blast
qed


lemma poll_work_unfold:
  "lyra_kbd_poll_work bus kbd =
    (let kbd1 = kbd\<lparr>client := client kbd @ [REG_INT_STATUS]\<rparr>;
         kbd2 = (if sint (bus (length (client kbd)) REG_INT_STATUS) < 0 then kbd1
                 else lyra_kbd_poll_dispatch bus kbd1 (ucast (bus (length (client kbd)) REG_INT_STATUS)))
     in kbd2\<lparr>poll_work := poll_work kbd2 @ [poll_interval_ms kbd2]\<rparr>)"
  by (simp add: lyra_kbd_poll_work_def lyra_kbd_read_reg_def schedule_delayed_work_def Let_def)

subsection \<open>The bound of the drain\<close>

text \<open>
  Claim C3 (FIFO drain bound and termination). The drain is a total function.
  One call reads the FIFO access register at most 16 times. When it reads it
  fewer than 16 times, the last bus transaction of the drain is a read of that
  register which failed or returned an entry of type None. When the register
  never fails and never returns None, the drain reads it exactly 16 times. A
  whole tick reads it at most 16 times.
\<close>

theorem fifo_drain_bound:
  assumes kbd': "kbd' = lyra_kbd_process_fifo bus kbd"
  shows "fifo_reads kbd \<le> fifo_reads kbd'
       \<and> fifo_reads kbd' \<le> fifo_reads kbd + FIFO_MAX_READ
       \<and> (fifo_reads kbd' < fifo_reads kbd + FIFO_MAX_READ \<longrightarrow>
            client kbd' \<noteq> [] \<and> last (client kbd') = REG_FIFO_ACCESS
          \<and> (sint (bus (length (client kbd') - 1) REG_FIFO_ACCESS) < 0
             \<or> (ucast (bus (length (client kbd') - 1) REG_FIFO_ACCESS) :: u8)
                  AND FIFO_EVENT_TYPE_MASK = FIFO_EVENT_NONE))
       \<and> ((\<forall>n. 0 \<le> sint (bus n REG_FIFO_ACCESS)
               \<and> (ucast (bus n REG_FIFO_ACCESS) :: u8) AND FIFO_EVENT_TYPE_MASK \<noteq> FIFO_EVENT_NONE) \<longrightarrow>
            fifo_reads kbd' = fifo_reads kbd + FIFO_MAX_READ)
       \<and> fifo_reads (lyra_kbd_poll_work bus kbd) \<le> fifo_reads kbd + FIFO_MAX_READ"
proof -
  note l = fifo_loop_reads [of 0 kbd bus, folded lyra_kbd_process_fifo_def, folded kbd']
  have a: "fifo_reads kbd \<le> fifo_reads kbd'" "fifo_reads kbd' \<le> fifo_reads kbd + FIFO_MAX_READ"
    using l by simp_all
  have b: "client kbd' \<noteq> [] \<and> last (client kbd') = REG_FIFO_ACCESS
          \<and> (sint (bus (length (client kbd') - 1) REG_FIFO_ACCESS) < 0
             \<or> (ucast (bus (length (client kbd') - 1) REG_FIFO_ACCESS) :: u8)
                  AND FIFO_EVENT_TYPE_MASK = FIFO_EVENT_NONE)"
    if "fifo_reads kbd' < fifo_reads kbd + FIFO_MAX_READ"
    using l that by simp
  have c: "fifo_reads kbd' = fifo_reads kbd + FIFO_MAX_READ"
    if "\<forall>n. 0 \<le> sint (bus n REG_FIFO_ACCESS)
               \<and> (ucast (bus n REG_FIFO_ACCESS) :: u8) AND FIFO_EVENT_TYPE_MASK \<noteq> FIFO_EVENT_NONE"
  proof (rule ccontr)
    assume "fifo_reads kbd' \<noteq> fifo_reads kbd + FIFO_MAX_READ"
    with a have "fifo_reads kbd' < fifo_reads kbd + FIFO_MAX_READ" by simp
    from b [OF this] that show False
      by (metis not_less)
  qed
  have d: "fifo_reads (lyra_kbd_poll_work bus kbd) \<le> fifo_reads kbd + FIFO_MAX_READ"
    using poll_dispatch_fifo_reads [of bus "kbd\<lparr>client := client kbd @ [REG_INT_STATUS]\<rparr>"
        "ucast (bus (length (client kbd)) REG_INT_STATUS)"]
    by (simp add: poll_work_unfold Let_def fifo_reads_def)
  show ?thesis
    using a b c d by blast
qed

text \<open>A register that returns a Hold entry forever.\<close>

theorem fifo_drain_bound_witness:
  "fifo_reads (lyra_kbd_process_fifo (\<lambda>n r. 0x16) (lyra_kbd_probe (\<lambda>n r. 0x16))) = 16
   \<and> fifo_reads (lyra_kbd_poll_work (\<lambda>n r. 0x16) (lyra_kbd_probe (\<lambda>n r. 0x16))) \<le> 16"
  using fifo_drain_bound [of "lyra_kbd_process_fifo (\<lambda>n r. 0x16) (lyra_kbd_probe (\<lambda>n r. 0x16))"
      "\<lambda>n r. 0x16" "lyra_kbd_probe (\<lambda>n r. 0x16)"]
  by (simp add: fifo_reads_def probe_state)

subsection \<open>The power button\<close>

text \<open>
  Claim C5 (power button toggle). A tick whose interrupt status is read
  successfully with the power-button bit set flips \<open>power_btn_pressed\<close> and
  ends its keyboard reports with the power key at the new state, followed by a
  sync. Two such ticks in a row report the power key at the negated state and
  then at the original state, and restore the stored state.
\<close>

theorem power_button_toggles:
  assumes rd1: "0 \<le> sint (bus (length (client kbd)) REG_INT_STATUS)"
    and bit1: "(ucast (bus (length (client kbd)) REG_INT_STATUS) :: u8) AND INT_STATUS_POWER_BTN \<noteq> 0"
    and kbd1: "kbd1 = lyra_kbd_poll_work bus kbd"
    and rd2: "0 \<le> sint (bus (length (client kbd1)) REG_INT_STATUS)"
    and bit2: "(ucast (bus (length (client kbd1)) REG_INT_STATUS) :: u8) AND INT_STATUS_POWER_BTN \<noteq> 0"
    and kbd2: "kbd2 = lyra_kbd_poll_work bus kbd1"
  shows "power_btn_pressed kbd1 = (\<not> power_btn_pressed kbd)
       \<and> (\<exists>evs. kbd_input kbd1 =
             kbd_input kbd @ evs @ [Report_key KEY_POWER (\<not> power_btn_pressed kbd), Sync])
       \<and> power_btn_pressed kbd2 = power_btn_pressed kbd
       \<and> (\<exists>evs. kbd_input kbd2 =
             kbd_input kbd1 @ evs @ [Report_key KEY_POWER (power_btn_pressed kbd), Sync])"
proof -
  have tick: "power_btn_pressed (lyra_kbd_poll_work bus k) = (\<not> power_btn_pressed k)
       \<and> (\<exists>evs. kbd_input (lyra_kbd_poll_work bus k) =
             kbd_input k @ evs @ [Report_key KEY_POWER (\<not> power_btn_pressed k), Sync])"
    if "0 \<le> sint (bus (length (client k)) REG_INT_STATUS)"
      and "(ucast (bus (length (client k)) REG_INT_STATUS) :: u8) AND INT_STATUS_POWER_BTN \<noteq> 0"
    for k
    using that poll_dispatch_power [of "ucast (bus (length (client k)) REG_INT_STATUS)" bus
        "k\<lparr>client := client k @ [REG_INT_STATUS]\<rparr>"]
    by (simp add: poll_work_unfold Let_def)
  from tick [OF rd1 bit1] tick [OF rd2 bit2] show ?thesis
    unfolding kbd1 [symmetric] kbd2 [symmetric] by simp
qed

text \<open>Two ticks with interrupt status 0x40 after the probe: pressed, then
  released.\<close>


theorem power_button_toggles_witness:
  "power_btn_pressed (lyra_kbd_probe (\<lambda>n r. 0x40)) = False
   \<and> power_btn_pressed (lyra_kbd_poll_work (\<lambda>n r. 0x40) (lyra_kbd_probe (\<lambda>n r. 0x40))) = True
   \<and> power_btn_pressed (lyra_kbd_poll_work (\<lambda>n r. 0x40)
        (lyra_kbd_poll_work (\<lambda>n r. 0x40) (lyra_kbd_probe (\<lambda>n r. 0x40)))) = False
   \<and> kbd_input (lyra_kbd_poll_work (\<lambda>n r. 0x40)
        (lyra_kbd_poll_work (\<lambda>n r. 0x40) (lyra_kbd_probe (\<lambda>n r. 0x40))))
      = kbd_input (lyra_kbd_probe (\<lambda>n r. 0x40))
        @ [Report_key KEY_POWER True, Sync, Report_key KEY_POWER False, Sync]"
proof -
  let ?bus = "(\<lambda>n r. 0x40) :: i2c_bus"
  let ?kbd = "lyra_kbd_probe ?bus"
  have t: "lyra_kbd_poll_work ?bus k =
      k\<lparr>client := client k @ [REG_INT_STATUS],
        power_btn_pressed := \<not> power_btn_pressed k,
        kbd_input := kbd_input k @ [Report_key KEY_POWER (\<not> power_btn_pressed k), Sync],
        poll_work := poll_work k @ [poll_interval_ms k]\<rparr>" for k
    by (simp add: poll_work_unfold lyra_kbd_poll_dispatch_def power_button_toggle Let_def)
  show ?thesis
    using power_button_toggles [of ?bus ?kbd "lyra_kbd_poll_work ?bus ?kbd"
        "lyra_kbd_poll_work ?bus (lyra_kbd_poll_work ?bus ?kbd)"]
    by (simp add: probe_state t)
qed

subsection \<open>Rescheduling\<close>

text \<open>
  Claim C6 (scheduler liveness). Every tick schedules the poll work once more,
  with the delay \<open>poll_interval_ms\<close>, which the tick does not change. When
  the read of the interrupt status fails, the tick does nothing else: apart
  from that read and the new schedule the driver's data is as before (no
  further register is read, no event is reported, the power button state
  stays).
\<close>

theorem poll_always_reschedules:
  "poll_work (lyra_kbd_poll_work bus kbd) = poll_work kbd @ [poll_interval_ms kbd]
   \<and> poll_interval_ms (lyra_kbd_poll_work bus kbd) = poll_interval_ms kbd
   \<and> (sint (bus (length (client kbd)) REG_INT_STATUS) < 0 \<longrightarrow>
        lyra_kbd_poll_work bus kbd =
          kbd\<lparr>client := client kbd @ [REG_INT_STATUS],
              poll_work := poll_work kbd @ [poll_interval_ms kbd]\<rparr>)"
  by (simp add: poll_work_unfold Let_def poll_dispatch_frame)

text \<open>A bus on which every read fails.\<close>

theorem poll_always_reschedules_witness:
  "lyra_kbd_poll_work (\<lambda>n r. - 1) (lyra_kbd_probe (\<lambda>n r. - 1)) =
     (lyra_kbd_probe (\<lambda>n r. - 1))\<lparr>client := [REG_KEY_STATUS, REG_INT_STATUS],
        poll_work := [POLL_INTERVAL_MS, POLL_INTERVAL_MS]\<rparr>"
  using poll_always_reschedules [of "\<lambda>n r. - 1" "lyra_kbd_probe (\<lambda>n r. - 1)"]
  by (simp add: probe_state)

subsection \<open>Mouse arithmetic\<close>



lemma s8_range: "- 128 \<le> sint (d :: s8)" "sint (d :: s8) \<le> 127"
  using sint_ge [of d] sint_lt [of d] by simp_all

lemma sint_scast_s8: "sint (scast (d :: s8) :: s32) = sint d"
  by (simp add: sint_up_scast is_up)

lemma product_range:
  assumes "- 128 \<le> (d :: int)" "d \<le> 127" "10 \<le> s" "s \<le> 500"
  shows "- 64000 \<le> d * s" "d * s \<le> 63500"
proof -
  have "d * s \<le> 127 * 500"
  proof (cases "0 \<le> d")
    case True
    then show ?thesis using assms by (intro mult_mono) simp_all
  next
    case False
    then have "d * s \<le> 0" using assms by (simp add: mult_le_0_iff)
    then show ?thesis by simp
  qed
  then show "d * s \<le> 63500" by simp
  have "(- d) * s \<le> 128 * 500"
  proof (cases "0 \<le> - d")
    case True
    then show ?thesis using assms by (intro mult_mono) simp_all
  next
    case False
    then have "(- d) * s \<le> 0" using assms by (simp add: mult_le_0_iff)
    then show ?thesis by simp
  qed
  then show "- 64000 \<le> d * s" by simp
qed

lemma sint_product:
  assumes "10 \<le> sint (s :: s32)" "sint s \<le> 500"
  shows "sint ((scast (d :: s8) :: s32) * s) = sint d * sint s"
proof -
  note r = product_range [OF s8_range [of d] assms]
  have "sint ((scast d :: s32) * s) = signed_take_bit 31 (sint d * sint s)"
    by (simp add: sint_word_ariths sint_scast_s8)
  also have "\<dots> = sint d * sint s"
    using r by (intro signed_take_bit_int_eq_self) simp_all
  finally show ?thesis .
qed

lemma sdiv_100_range:
  assumes "- 64000 \<le> (p :: int)" "p \<le> 63500"
  shows "- 640 \<le> p sdiv 100" "p sdiv 100 \<le> 635"
  using assms by (auto simp add: signed_divide_int_def sgn_if abs_if)


lemma mouse_adjusted:
  assumes d: "(d :: s8) \<noteq> 0" and s: "10 \<le> sint (s :: s32)" "sint s \<le> 500"
  shows "(let a = s32_div ((scast d :: s32) * s) 100 in
          if a = 0 \<and> d \<noteq> 0 then (if 0 < sint d then 1 else - 1) else a)
         = word_of_int (spec_mouse_amount (sint d) (sint s))"
    and "sint (word_of_int (spec_mouse_amount (sint d) (sint s)) :: s32)
         = spec_mouse_amount (sint d) (sint s)"
    and "spec_mouse_amount (sint d) (sint s) \<noteq> 0"
proof -
  define q where "q = (sint d * sint s) sdiv 100"
  note pr = product_range [OF s8_range [of d] s]
  note qr = sdiv_100_range [OF pr, folded q_def]
  have a: "s32_div ((scast d :: s32) * s) 100 = word_of_int q"
    by (simp add: s32_div_def sint_product [OF s] q_def)
  have sq: "sint (word_of_int q :: s32) = q"
    using qr by (simp add: sint_sbintrunc' signed_take_bit_int_eq_self)
  have z: "(word_of_int q :: s32) = 0 \<longleftrightarrow> q = 0"
    using sq by (metis sint_0 word_of_int_0)
  have nz: "sint d \<noteq> 0"
    using d by (simp add: signed_eq_0_iff)
  have sg: "(if 0 < sint d then 1 else - 1 :: s32) = word_of_int (sgn (sint d))"
    using nz by (simp add: sgn_if)
  show "(let a = s32_div ((scast d :: s32) * s) 100 in
          if a = 0 \<and> d \<noteq> 0 then (if 0 < sint d then 1 else - 1) else a)
         = word_of_int (spec_mouse_amount (sint d) (sint s))"
    using d z sg by (simp add: a Let_def spec_mouse_amount_def q_def [symmetric])
  show "spec_mouse_amount (sint d) (sint s) \<noteq> 0"
    using nz by (simp add: spec_mouse_amount_def Let_def sgn_if)
  have "- 640 \<le> spec_mouse_amount (sint d) (sint s)" "spec_mouse_amount (sint d) (sint s) \<le> 635"
    using qr by (simp_all add: spec_mouse_amount_def Let_def q_def [symmetric] sgn_if)
  then show "sint (word_of_int (spec_mouse_amount (sint d) (sint s)) :: s32)
         = spec_mouse_amount (sint d) (sint s)"
    by (simp add: sint_sbintrunc' signed_take_bit_int_eq_self)
qed

subsection \<open>Mouse scaling\<close>

text \<open>
  Claim C4 (mouse scaling). When both delta registers are read successfully,
  the mouse device receives, for a non-zero X delta \<open>dx\<close> and a speed between
  10 and 500, one relative-motion report on \<^const>\<open>REL_X\<close> whose amount is
  the specification's \<^const>\<open>spec_mouse_amount\<close> (the truncated quotient,
  or the sign of the delta when the quotient is zero), which is never zero and
  fits the reported 32-bit value; likewise for Y. For a zero delta no report is
  made for that axis, whatever the speed. A sync follows when either delta is
  non-zero.
\<close>

theorem mouse_scaling:
  assumes rdx: "0 \<le> sint (bus (length (client kbd)) REG_MOUSE_X)"
    and rdy: "0 \<le> sint (bus (length (client kbd) + 1) REG_MOUSE_Y)"
    and dx: "dx = (ucast (bus (length (client kbd)) REG_MOUSE_X) :: s8)"
    and dy: "dy = (ucast (bus (length (client kbd) + 1) REG_MOUSE_Y) :: s8)"
    and sx: "dx \<noteq> 0 \<longrightarrow> 10 \<le> sint (mouse_speed_x kbd) \<and> sint (mouse_speed_x kbd) \<le> 500"
    and sy: "dy \<noteq> 0 \<longrightarrow> 10 \<le> sint (mouse_speed_y kbd) \<and> sint (mouse_speed_y kbd) \<le> 500"
    and ax: "ax = spec_mouse_amount (sint dx) (sint (mouse_speed_x kbd))"
    and ay: "ay = spec_mouse_amount (sint dy) (sint (mouse_speed_y kbd))"
  shows "mouse_input (lyra_kbd_process_mouse bus kbd) = mouse_input kbd
           @ (if dx \<noteq> 0 then [Report_rel REL_X (word_of_int ax)] else [])
           @ (if dy \<noteq> 0 then [Report_rel REL_Y (word_of_int ay)] else [])
           @ (if dx \<noteq> 0 \<or> dy \<noteq> 0 then [Sync] else [])
       \<and> (dx \<noteq> 0 \<longrightarrow> sint (word_of_int ax :: s32) = ax \<and> ax \<noteq> 0)
       \<and> (dy \<noteq> 0 \<longrightarrow> sint (word_of_int ay :: s32) = ay \<and> ay \<noteq> 0)"
proof -
  define adj :: "s8 \<Rightarrow> s32 \<Rightarrow> s32" where
    "adj = (\<lambda>d s. let a = s32_div ((scast d :: s32) * s) 100 in
          if a = 0 \<and> d \<noteq> 0 then (if 0 < sint d then 1 else - 1) else a)"
  have x: "adj dx (mouse_speed_x kbd) = word_of_int ax"
     "sint (word_of_int ax :: s32) = ax" "ax \<noteq> 0" if "dx \<noteq> 0"
    using mouse_adjusted [of dx "mouse_speed_x kbd"] that sx unfolding ax adj_def by blast+
  have y: "adj dy (mouse_speed_y kbd) = word_of_int ay"
     "sint (word_of_int ay :: s32) = ay" "ay \<noteq> 0" if "dy \<noteq> 0"
    using mouse_adjusted [of dy "mouse_speed_y kbd"] that sy unfolding ay adj_def by blast+
  have "mouse_input (lyra_kbd_process_mouse bus kbd) = mouse_input kbd
           @ (if dx \<noteq> 0 then [Report_rel REL_X (adj dx (mouse_speed_x kbd))] else [])
           @ (if dy \<noteq> 0 then [Report_rel REL_Y (adj dy (mouse_speed_y kbd))] else [])
           @ (if dx \<noteq> 0 \<or> dy \<noteq> 0 then [Sync] else [])"
    using rdx rdy unfolding dx dy adj_def
    by (simp add: lyra_kbd_process_mouse_def lyra_kbd_read_reg_def
        input_report_rel_def input_sync_def Let_def)
  then show ?thesis
    using x y by simp
qed

text \<open>Delta -1 at 10 percent is reported as -1; delta 50 at 250 percent as
  125; the zero Y delta is not reported.\<close>


theorem mouse_scaling_witness:
  "mouse_input (lyra_kbd_process_mouse (\<lambda>n r. if n = 1 then 0xFF else 0)
       ((lyra_kbd_probe (\<lambda>n r. if n = 1 then 0xFF else 0))\<lparr>mouse_speed_x := 10\<rparr>))
     = [Report_rel REL_X (- 1), Sync]
   \<and> mouse_input (lyra_kbd_process_mouse (\<lambda>n r. if n = 1 then 50 else 0)
       ((lyra_kbd_probe (\<lambda>n r. if n = 1 then 50 else 0))\<lparr>mouse_speed_x := 250\<rparr>))
     = [Report_rel REL_X 125, Sync]"
proof -
  have a: "spec_mouse_amount (- 1) 10 = - 1"
    by (simp add: spec_mouse_amount_def signed_divide_int_def)
  have b: "spec_mouse_amount 50 250 = 125"
    by (simp add: spec_mouse_amount_def signed_divide_int_def)
  have one: "mouse_input (lyra_kbd_process_mouse bus kbd) = [Report_rel REL_X (word_of_int ax), Sync]"
    if "client kbd = [REG_KEY_STATUS]" "mouse_input kbd = []"
      and "bus = (\<lambda>n r. if n = 1 then v else 0)" "0 \<le> sint v" "(ucast v :: s8) \<noteq> 0"
      and "10 \<le> sint (mouse_speed_x kbd)" "sint (mouse_speed_x kbd) \<le> 500"
      and "ax = spec_mouse_amount (sint (ucast v :: s8)) (sint (mouse_speed_x kbd))"
    for bus kbd v ax
  proof -
    have 1: "0 \<le> sint (bus (length (client kbd)) REG_MOUSE_X)"
      and 2: "0 \<le> sint (bus (length (client kbd) + 1) REG_MOUSE_Y)"
      and 3: "ucast v = (ucast (bus (length (client kbd)) REG_MOUSE_X) :: s8)"
      and 4: "0 = (ucast (bus (length (client kbd) + 1) REG_MOUSE_Y) :: s8)"
      using that by simp_all
    have 5: "(ucast v :: s8) \<noteq> 0 \<longrightarrow> 10 \<le> sint (mouse_speed_x kbd) \<and> sint (mouse_speed_x kbd) \<le> 500"
      and 6: "(0 :: s8) \<noteq> 0 \<longrightarrow> 10 \<le> sint (mouse_speed_y kbd) \<and> sint (mouse_speed_y kbd) \<le> 500"
      using that by simp_all
    from mouse_scaling [OF 1 2 3 4 5 6 that(8) refl] that(2,5) show ?thesis
      by simp
  qed
  have "mouse_input (lyra_kbd_process_mouse (\<lambda>n r. if n = 1 then 0xFF else 0)
       ((lyra_kbd_probe (\<lambda>n r. if n = 1 then 0xFF else 0))\<lparr>mouse_speed_x := 10\<rparr>))
     = [Report_rel REL_X (word_of_int (- 1)), Sync]"
    by (rule one [where v = "0xFF"]) (simp_all add: probe_state a)
  moreover have "mouse_input (lyra_kbd_process_mouse (\<lambda>n r. if n = 1 then 50 else 0)
       ((lyra_kbd_probe (\<lambda>n r. if n = 1 then 50 else 0))\<lparr>mouse_speed_x := 250\<rparr>))
     = [Report_rel REL_X (word_of_int 125), Sync]"
    by (rule one [where v = 50]) (simp_all add: probe_state b)
  ultimately show ?thesis by simp
qed

subsection \<open>Configuration writes\<close>

text \<open>
  Claim C8 (configuration atomicity on rejection). Whatever the parser: a write
  to mouse speed X or Y that does not parse, or parses to a value below 10 or
  above 500, returns \<^verbatim>\<open>-EINVAL\<close> and leaves the driver's data as it
  was; a value from 10 to 500 is stored as written and the byte count is
  returned. The same holds for the poll interval with the bounds 5 and 100.
\<close>

theorem config_store_atomic:
  fixes kstrtoint :: "string \<Rightarrow> s32 option" and kstrtouint :: "string \<Rightarrow> u32 option"
  shows "((kstrtoint buf = None \<or> (\<exists>val. kstrtoint buf = Some val \<and> (sint val < 10 \<or> 500 < sint val))) \<longrightarrow>
            mouse_speed_x_store kstrtoint kbd buf count = (Inl EINVAL, kbd)
          \<and> mouse_speed_y_store kstrtoint kbd buf count = (Inl EINVAL, kbd))
       \<and> (\<forall>val. kstrtoint buf = Some val \<and> 10 \<le> sint val \<and> sint val \<le> 500 \<longrightarrow>
            mouse_speed_x_store kstrtoint kbd buf count = (Inr count, kbd\<lparr>mouse_speed_x := val\<rparr>)
          \<and> mouse_speed_y_store kstrtoint kbd buf count = (Inr count, kbd\<lparr>mouse_speed_y := val\<rparr>))
       \<and> ((kstrtouint buf = None \<or> (\<exists>val. kstrtouint buf = Some val \<and> (unat val < 5 \<or> 100 < unat val))) \<longrightarrow>
            poll_interval_store kstrtouint kbd buf count = (Inl EINVAL, kbd))
       \<and> (\<forall>val. kstrtouint buf = Some val \<and> 5 \<le> unat val \<and> unat val \<le> 100 \<longrightarrow>
            poll_interval_store kstrtouint kbd buf count = (Inr count, kbd\<lparr>poll_interval_ms := val\<rparr>))"
proof -
  have u: "(val < 5) = (unat val < 5)" "(100 < val) = (100 < unat val)" for val :: u32
    by (simp_all add: word_less_nat_alt)
  show ?thesis
    by (auto simp add: mouse_speed_x_store_def mouse_speed_y_store_def poll_interval_store_def u)
qed

text \<open>Writes of 501, of text that does not parse, of 250, and of the poll
  intervals 4 and 20.\<close>

theorem config_store_atomic_witness:
  "mouse_speed_x_store (\<lambda>buf. if buf = ''250'' then Some 250 else if buf = ''501'' then Some 501 else None)
       (lyra_kbd_probe (\<lambda>n r. 0)) ''501'' 3 = (Inl EINVAL, lyra_kbd_probe (\<lambda>n r. 0))
   \<and> mouse_speed_y_store (\<lambda>buf. if buf = ''250'' then Some 250 else if buf = ''501'' then Some 501 else None)
       (lyra_kbd_probe (\<lambda>n r. 0)) ''fast'' 4 = (Inl EINVAL, lyra_kbd_probe (\<lambda>n r. 0))
   \<and> mouse_speed_x_store (\<lambda>buf. if buf = ''250'' then Some 250 else if buf = ''501'' then Some 501 else None)
       (lyra_kbd_probe (\<lambda>n r. 0)) ''250'' 3
       = (Inr 3, (lyra_kbd_probe (\<lambda>n r. 0))\<lparr>mouse_speed_x := 250\<rparr>)
   \<and> poll_interval_store (\<lambda>buf. if buf = ''4'' then Some 4 else if buf = ''20'' then Some 20 else None)
       (lyra_kbd_probe (\<lambda>n r. 0)) ''4'' 1 = (Inl EINVAL, lyra_kbd_probe (\<lambda>n r. 0))
   \<and> poll_interval_store (\<lambda>buf. if buf = ''4'' then Some 4 else if buf = ''20'' then Some 20 else None)
       (lyra_kbd_probe (\<lambda>n r. 0)) ''20'' 2
       = (Inr 2, (lyra_kbd_probe (\<lambda>n r. 0))\<lparr>poll_interval_ms := 20\<rparr>)"
proof -
  let ?p = "(\<lambda>buf. if buf = ''250'' then Some 250 else if buf = ''501'' then Some 501 else None)
    :: string \<Rightarrow> s32 option"
  let ?q = "(\<lambda>buf. if buf = ''4'' then Some 4 else if buf = ''20'' then Some 20 else None)
    :: string \<Rightarrow> u32 option"
  let ?kbd = "lyra_kbd_probe (\<lambda>n r. 0)"
  show ?thesis
    using config_store_atomic [where kstrtoint = ?p and kstrtouint = ?q and kbd = ?kbd
          and buf = "''501''" and count = 3]
      config_store_atomic [where kstrtoint = ?p and kstrtouint = ?q and kbd = ?kbd
          and buf = "''fast''" and count = 4]
      config_store_atomic [where kstrtoint = ?p and kstrtouint = ?q and kbd = ?kbd
          and buf = "''250''" and count = 3]
      config_store_atomic [where kstrtoint = ?p and kstrtouint = ?q and kbd = ?kbd
          and buf = "''250''" and count = 3]
      config_store_atomic [where kstrtoint = ?p and kstrtouint = ?q and kbd = ?kbd
          and buf = "''4''" and count = 1]
      config_store_atomic [where kstrtoint = ?p and kstrtouint = ?q and kbd = ?kbd
          and buf = "''20''" and count = 2]
    by simp
qed

end
